theory Spec2Isabelle
  imports
    Complex_Main
    "HOL-Library.AList"
    "HOL-Library.Sublist"
    "HOL-Library.Log_Nat"
    "HOL-Library.Product_Lexorder"
begin

section \<open>Social memory plugin: affection ledger, bonds and memory store\<close>

text \<open>
  A shallow embedding of \<^verbatim>\<open>src/plugin.py\<close>. Python \<^verbatim>\<open>int\<close> is \<^typ>\<open>int\<close>,
  \<^verbatim>\<open>str\<close> is \<^typ>\<open>string\<close> (the bytes of the text), a Python \<^verbatim>\<open>float\<close> is the
  rational number that the double denotes, a \<^verbatim>\<open>Dict[str, V]\<close> is an association list in
  insertion order (Python dictionaries iterate in insertion order, and the code depends on
  it when it scans for the first record with a given content). Every reading of the clock
  is an argument of the function that makes it. The persisted blob of one user is modelled
  by the \<^verbatim>\<open>SocialData\<close> value it encodes (\<^verbatim>\<open>None\<close> when nothing was saved yet);
  the JSON encoding itself is done by the pydantic library and is not part of this source.
\<close>

subsection \<open>Python slices and dictionaries\<close>

text \<open>\<^verbatim>\<open>xs[-n:]\<close>: the last \<open>n\<close> elements when \<open>n > 0\<close>; for \<open>n \<le> 0\<close> the start index
  \<open>-n\<close> is not negative, so the slice drops the first \<open>-n\<close> elements and \<^verbatim>\<open>xs[-0:]\<close> is
  the whole list.\<close>

definition py_slice_from_neg :: "int \<Rightarrow> 'a list \<Rightarrow> 'a list" where
  "py_slice_from_neg n xs =
     (if 0 < n then drop (length xs - nat n) xs else drop (nat (- n)) xs)"

text \<open>\<^verbatim>\<open>xs[:n]\<close>: the first \<open>n\<close> elements when \<open>n \<ge> 0\<close>; for \<open>n < 0\<close> all but the last
  \<open>-n\<close> elements.\<close>

definition py_slice_to :: "int \<Rightarrow> 'a list \<Rightarrow> 'a list" where
  "py_slice_to n xs =
     (if 0 \<le> n then take (nat n) xs else take (length xs - nat (- n)) xs)"

type_synonym 'v dict = "(string \<times> 'v) list"

definition dict_keys :: "'v dict \<Rightarrow> string list" where
  "dict_keys d = map fst d"

definition dict_values :: "'v dict \<Rightarrow> 'v list" where
  "dict_values d = map snd d"

text \<open>\<^verbatim>\<open>d[k] = v\<close>: an existing key keeps its position, a new key goes to the end.\<close>

definition dict_set :: "string \<Rightarrow> 'v \<Rightarrow> 'v dict \<Rightarrow> 'v dict" where
  "dict_set k v d = AList.update k v d"

subsection \<open>Configuration and enumerations\<close>

datatype AffectionTier = ENEMY | STRANGER | ACQUAINTANCE | FRIEND | CLOSE_FRIEND | SOULMATE

record SocialMemoryConfig =
  RETENTION_DAYS :: int
  MAX_INJECTED_MEMORIES :: int
  MIN_IMPORTANCE_SCORE :: int
  DEFAULT_AFFECTION :: int
  MAX_HISTORY_EVENTS :: int
  ENABLE_BOND_SYSTEM :: bool
  AFFECTION_PROMPT_LIMIT :: int

definition default_config :: SocialMemoryConfig where
  "default_config =
     \<lparr> RETENTION_DAYS = 30, MAX_INJECTED_MEMORIES = 5, MIN_IMPORTANCE_SCORE = 5,
       DEFAULT_AFFECTION = 0, MAX_HISTORY_EVENTS = 20, ENABLE_BOND_SYSTEM = True,
       AFFECTION_PROMPT_LIMIT = 3 \<rparr>"

subsection \<open>Data models\<close>

text \<open>The field \<^verbatim>\<open>context\<close> of \<^verbatim>\<open>AffectionEvent\<close> is called \<open>event_context\<close> here.\<close>

record AffectionEvent =
  timestamp :: int
  change_amount :: int
  event_type :: string
  description :: string
  event_context :: "string option"

definition AffectionEvent_create ::
  "int \<Rightarrow> int \<Rightarrow> string \<Rightarrow> string \<Rightarrow> string option \<Rightarrow> AffectionEvent" where
  "AffectionEvent_create now amount etype descr ctx =
     \<lparr> timestamp = now, change_amount = amount, event_type = etype,
       description = descr, event_context = ctx \<rparr>"

record BondStatus =
  bond_id :: string
  unlocked :: bool
  unlock_time :: int

definition BondStatus_create :: "string \<Rightarrow> BondStatus" where
  "BondStatus_create b = \<lparr> bond_id = b, unlocked = False, unlock_time = 0 \<rparr>"

record UserAffection =
  user_id :: string
  affection_value :: int
  total_positive :: int
  total_negative :: int
  first_met_time :: int
  last_interaction_time :: int
  events :: "AffectionEvent list"
  bonds :: "BondStatus dict"

definition UserAffection_create :: "int \<Rightarrow> string \<Rightarrow> int \<Rightarrow> UserAffection" where
  "UserAffection_create now uid initial_affection =
     \<lparr> user_id = uid, affection_value = initial_affection, total_positive = 0,
       total_negative = 0, first_met_time = now, last_interaction_time = now,
       events = [], bonds = [] \<rparr>"

definition add_event :: "AffectionEvent \<Rightarrow> int \<Rightarrow> UserAffection \<Rightarrow> UserAffection" where
  "add_event event max_events a =
     (let a1 = a\<lparr> events := events a @ [event] \<rparr>;
          a2 = a1\<lparr> events := py_slice_from_neg max_events (events a1) \<rparr>;
          a3 = a2\<lparr> last_interaction_time := timestamp event \<rparr>
      in if 0 < change_amount event
         then a3\<lparr> total_positive := total_positive a3 + change_amount event \<rparr>
         else if change_amount event < 0
         then a3\<lparr> total_negative := total_negative a3 + \<bar>change_amount event\<bar> \<rparr>
         else a3)"

definition get_tier :: "UserAffection \<Rightarrow> AffectionTier" where
  "get_tier a =
     (let v = affection_value a
      in if 81 \<le> v then SOULMATE
         else if 51 \<le> v then CLOSE_FRIEND
         else if 11 \<le> v then FRIEND
         else if - 19 \<le> v then ACQUAINTANCE
         else if - 59 \<le> v then STRANGER
         else ENEMY)"

definition get_unlocked_bonds :: "UserAffection \<Rightarrow> string list" where
  "get_unlocked_bonds a = map fst (filter (\<lambda>(bid, status). unlocked status) (bonds a))"

record UserMemory =
  memory_id :: string
  memory_type :: string
  content :: string
  importance :: int
  source_chat_key :: string
  created_at :: int
  expires_at :: int
  tags :: "string list"

definition UserMemory_create ::
  "int \<Rightarrow> string \<Rightarrow> string \<Rightarrow> string \<Rightarrow> string \<Rightarrow> int \<Rightarrow> int \<Rightarrow> string list option
     \<Rightarrow> UserMemory" where
  "UserMemory_create now mid mtype c chat_key imp retention_days tgs =
     \<lparr> memory_id = mid, memory_type = mtype, content = c,
       importance = max 0 (min 10 imp), source_chat_key = chat_key,
       created_at = now, expires_at = now + retention_days * 24 * 60 * 60,
       tags = (case tgs of None \<Rightarrow> [] | Some ts \<Rightarrow> ts) \<rparr>"

text \<open>\<^verbatim>\<open>time.time()\<close> is a float; comparing it with the integer \<^verbatim>\<open>expires_at\<close> is exact
  in Python, so the reading \<open>now\<close> is a rational number here.\<close>

definition is_expired :: "rat \<Rightarrow> UserMemory \<Rightarrow> bool" where
  "is_expired now m = (of_int (expires_at m) < now)"

record SocialData =
  affection :: UserAffection
  memories :: "UserMemory dict"

definition SocialData_create :: "int \<Rightarrow> string \<Rightarrow> int \<Rightarrow> SocialData" where
  "SocialData_create now uid initial_affection =
     \<lparr> affection = UserAffection_create now uid initial_affection, memories = [] \<rparr>"

subsection \<open>Storage\<close>

text \<open>The slot of one user in the plugin store: \<open>None\<close> until the first save. A missing
  slot yields a fresh profile with the configured default affection (\<open>now\<close> is the clock
  reading of \<^verbatim>\<open>UserAffection.create\<close>).\<close>

type_synonym store = "SocialData option"

definition get_social_data :: "SocialMemoryConfig \<Rightarrow> int \<Rightarrow> string \<Rightarrow> store \<Rightarrow> SocialData" where
  "get_social_data cfg now uid st =
     (case st of Some d \<Rightarrow> d | None \<Rightarrow> SocialData_create now uid (DEFAULT_AFFECTION cfg))"

definition save_social_data :: "SocialData \<Rightarrow> store" where
  "save_social_data d = Some d"

subsection \<open>Predefined bonds\<close>

text \<open>\<^verbatim>\<open>BOND_DEFINITIONS\<close> in catalog order, each bond with its condition string. The
  display names are localized text used only when a bond is rendered.\<close>

definition BOND_DEFINITIONS :: "(string \<times> string) list" where
  "BOND_DEFINITIONS =
     [ (''first_meet'', ''always''),
       (''shared_laugh'', ''event_count_positive >= 5''),
       (''deep_conversation'', ''event_count_positive >= 10''),
       (''trusted_confidant'', ''event_count_positive >= 20''),
       (''storm_together'', ''event_type_crisis >= 3''),
       (''heart_to_heart'', ''affection >= 80'') ]"

definition crisis_count :: "UserAffection \<Rightarrow> nat" where
  "crisis_count a =
     length (filter (\<lambda>e. event_type e = ''crisis'' \<and> 0 < change_amount e) (events a))"

subsection \<open>Affection operations\<close>

record AffectionState =
  state_affection_value :: int
  state_tier :: AffectionTier
  state_total_positive :: int
  state_total_negative :: int
  state_unlocked_bonds :: "string list"

definition get_affection_state ::
  "SocialMemoryConfig \<Rightarrow> int \<Rightarrow> string \<Rightarrow> store \<Rightarrow> AffectionState \<times> store" where
  "get_affection_state cfg now uid st =
     (let social_data = get_social_data cfg now uid st
      in (\<lparr> state_affection_value = affection_value (affection social_data),
             state_tier = get_tier (affection social_data),
             state_total_positive = total_positive (affection social_data),
             state_total_negative = total_negative (affection social_data),
             state_unlocked_bonds = get_unlocked_bonds (affection social_data) \<rparr>, st))"

text \<open>The unlock test of \<^verbatim>\<open>record_affection_event\<close>, an \<^verbatim>\<open>if\<close>/\<^verbatim>\<open>elif\<close> chain on the
  condition string; a string outside the chain leaves \<^verbatim>\<open>should_unlock\<close> false.\<close>

definition should_unlock :: "string \<Rightarrow> UserAffection \<Rightarrow> bool" where
  "should_unlock cond aff =
     (if cond = ''always'' then True
      else if cond = ''affection >= 80'' then 80 \<le> affection_value aff
      else if cond = ''event_count_positive >= 5'' then 5 \<le> total_positive aff
      else if cond = ''event_count_positive >= 10'' then 10 \<le> total_positive aff
      else if cond = ''event_count_positive >= 20'' then 20 \<le> total_positive aff
      else if cond = ''event_type_crisis >= 3'' then 3 \<le> crisis_count aff
      else False)"

text \<open>One iteration of the loop over \<^verbatim>\<open>BOND_DEFINITIONS\<close>: the status is created when the
  bond has none, and a locked bond whose condition holds is unlocked and reported.
  \<open>clk b\<close> is the clock reading taken when bond \<open>b\<close> is unlocked. After the creation step
  the lookup cannot miss; that branch leaves the state as it is.\<close>

definition check_bond ::
  "(string \<Rightarrow> int) \<Rightarrow> string \<times> string \<Rightarrow> UserAffection \<times> string list
     \<Rightarrow> UserAffection \<times> string list" where
  "check_bond clk bd acc =
     (let b = fst bd; cond = snd bd; a = fst acc; newly = snd acc;
          a1 = (if b \<notin> set (dict_keys (bonds a))
                then a\<lparr> bonds := dict_set b (BondStatus_create b) (bonds a) \<rparr> else a)
      in case map_of (bonds a1) b of
           None \<Rightarrow> (a1, newly)
         | Some status \<Rightarrow>
             if \<not> unlocked status \<and> should_unlock cond a1
             then (a1\<lparr> bonds := dict_set b (status\<lparr> unlocked := True, unlock_time := clk b \<rparr>)
                                    (bonds a1) \<rparr>, newly @ [b])
             else (a1, newly))"

definition check_bonds :: "(string \<Rightarrow> int) \<Rightarrow> UserAffection \<Rightarrow> UserAffection \<times> string list" where
  "check_bonds clk a = foldl (\<lambda>acc bd. check_bond clk bd acc) (a, []) BOND_DEFINITIONS"

text \<open>The clock readings of one \<^verbatim>\<open>record_affection_event\<close> call: in
  \<^verbatim>\<open>UserAffection.create\<close> (used only when the user has no profile yet), in
  \<^verbatim>\<open>AffectionEvent.create\<close>, and at each unlock.\<close>

record event_clock =
  clk_profile :: int
  clk_event :: int
  clk_unlock :: "string \<Rightarrow> int"

record AffectionEventResult =
  new_affection :: int
  tier_changed :: bool
  new_tier :: AffectionTier
  unlocked_bonds :: "string list"

definition record_affection_event ::
  "SocialMemoryConfig \<Rightarrow> event_clock \<Rightarrow> string \<Rightarrow> int \<Rightarrow> string \<Rightarrow> string \<Rightarrow> string option
     \<Rightarrow> store \<Rightarrow> AffectionEventResult \<times> store" where
  "record_affection_event cfg clk uid amount etype descr ctx st =
     (let change = max (- 20) (min 20 amount);
          social_data = get_social_data cfg (clk_profile clk) uid st;
          old_tier = get_tier (affection social_data);
          event = AffectionEvent_create (clk_event clk) change etype descr ctx;
          a1 = add_event event (MAX_HISTORY_EVENTS cfg) (affection social_data);
          a2 = a1\<lparr> affection_value := max (- 100) (min 100 (affection_value a1 + change)) \<rparr>;
          new = get_tier a2;
          checked = (if ENABLE_BOND_SYSTEM cfg then check_bonds (clk_unlock clk) a2
                     else (a2, []));
          social_data' = social_data\<lparr> affection := fst checked \<rparr>
      in (\<lparr> new_affection = affection_value (affection social_data'),
             tier_changed = (old_tier \<noteq> new), new_tier = new,
             unlocked_bonds = snd checked \<rparr>,
          save_social_data social_data'))"

definition get_interaction_history ::
  "SocialMemoryConfig \<Rightarrow> int \<Rightarrow> string \<Rightarrow> int \<Rightarrow> store \<Rightarrow> AffectionEvent list \<times> store" where
  "get_interaction_history cfg now uid limit st =
     (let social_data = get_social_data cfg now uid st
      in (py_slice_from_neg limit (events (affection social_data)), st))"

subsection \<open>Python floats\<close>

text \<open>A finite double is modelled by the rational number it denotes. \<open>round_double x\<close> is
  the double nearest to \<open>x\<close>, ties to the even mantissa: when \<open>2 powi e \<le> \<bar>x\<bar> < 2 powi (e + 1)\<close>
  the doubles around \<open>x\<close> are the multiples of \<open>2 powi (e - 52)\<close>, and of \<open>2 powi (- 1074)\<close>
  for \<open>e\<close> below \<open>- 1022\<close>. A result of magnitude \<open>2 ^ 1024\<close> or more is no double: true
  division of integers then raises \<^verbatim>\<open>OverflowError\<close>, and a float product is an infinity.
  The sign of a zero is not modelled: in \<^verbatim>\<open>get_bond_info\<close> a zero comes from a counter that
  is 0 only, and is positive.\<close>

datatype py_error = OverflowError | ZeroDivisionError

datatype pyfloat = Finite rat | PosInf | NegInf

definition round_half_even :: "rat \<Rightarrow> int" where
  "round_half_even y =
     (let f = \<lfloor>y\<rfloor>; d = y - of_int f
      in if d < 1 / 2 then f else if 1 / 2 < d then f + 1 else if even f then f else f + 1)"

text \<open>\<open>ilog2 x\<close> is the exponent \<open>e\<close> with \<open>2 powi e \<le> x < 2 powi (e + 1)\<close>, for positive \<open>x\<close>.\<close>

definition ilog2 :: "rat \<Rightarrow> int" where
  "ilog2 x =
     (let e0 = bitlen (fst (quotient_of x)) - bitlen (snd (quotient_of x))
      in if 2 powi e0 \<le> x then e0 else e0 - 1)"

definition double_grid :: "rat \<Rightarrow> rat" where
  "double_grid a = 2 powi (max (ilog2 a) (- 1022) - 52)"

definition round_double :: "rat \<Rightarrow> rat" where
  "round_double x =
     (if x = 0 then 0
      else if 0 < x then of_int (round_half_even (x / double_grid x)) * double_grid x
      else - (of_int (round_half_even (- x / double_grid (- x))) * double_grid (- x)))"

definition double_limit :: rat where
  "double_limit = 2 ^ 1024"

text \<open>\<^verbatim>\<open>a / b\<close> on two integers: the double nearest to the exact quotient.\<close>

definition int_true_div :: "int \<Rightarrow> int \<Rightarrow> py_error + rat" where
  "int_true_div a b =
     (if b = 0 then Inl ZeroDivisionError
      else let r = round_double (of_int a / of_int b)
           in if double_limit \<le> \<bar>r\<bar> then Inl OverflowError else Inr r)"

text \<open>\<^verbatim>\<open>x * y\<close> on two finite floats.\<close>

definition float_mul :: "rat \<Rightarrow> rat \<Rightarrow> pyfloat" where
  "float_mul x y =
     (let r = round_double (x * y)
      in if double_limit \<le> r then PosInf else if r \<le> - double_limit then NegInf else Finite r)"

text \<open>\<^verbatim>\<open>min(1.0, q)\<close>.\<close>

definition min_one :: "rat \<Rightarrow> rat" where
  "min_one q = (if q < 1 then q else 1)"

text \<open>\<^verbatim>\<open>round(x, 1)\<close>: an infinity is returned as it is; a finite double is rounded to one
  decimal, ties to the even digit, and the double nearest to that decimal is returned.\<close>

definition py_round1 :: "pyfloat \<Rightarrow> pyfloat" where
  "py_round1 v =
     (case v of
        Finite x \<Rightarrow> Finite (round_double (of_int (round_half_even (x * 10)) / 10))
      | PosInf \<Rightarrow> PosInf
      | NegInf \<Rightarrow> NegInf)"

subsection \<open>Bond progress\<close>

text \<open>\<^verbatim>\<open>min(1.0, counter / threshold)\<close>, as the chain of \<^verbatim>\<open>get_bond_info\<close> computes it; a
  condition outside the chain leaves \<^verbatim>\<open>progress\<close> at 0.0.\<close>

definition capped_ratio :: "int \<Rightarrow> int \<Rightarrow> py_error + rat" where
  "capped_ratio counter threshold =
     (case int_true_div counter threshold of Inl e \<Rightarrow> Inl e | Inr q \<Rightarrow> Inr (min_one q))"

definition progress_of :: "string \<Rightarrow> UserAffection \<Rightarrow> py_error + rat" where
  "progress_of cond aff =
     (if cond = ''always'' then Inr 1
      else if cond = ''affection >= 80'' then capped_ratio (affection_value aff) 80
      else if cond = ''event_count_positive >= 5'' then capped_ratio (total_positive aff) 5
      else if cond = ''event_count_positive >= 10'' then capped_ratio (total_positive aff) 10
      else if cond = ''event_count_positive >= 20'' then capped_ratio (total_positive aff) 20
      else if cond = ''event_type_crisis >= 3'' then capped_ratio (int (crisis_count aff)) 3
      else Inr 0)"

record BondInfo =
  info_bond_id :: string
  info_unlocked :: bool
  info_progress :: pyfloat

text \<open>One iteration of the loop of \<^verbatim>\<open>get_bond_info\<close>. It writes a default status for a
  missing bond into the loaded profile, whatever the configuration says, and then computes
  the progress; when the division raises, the iteration ends there.\<close>

definition bond_info_step ::
  "string \<times> string \<Rightarrow> UserAffection \<times> BondInfo list
     \<Rightarrow> py_error option \<times> UserAffection \<times> BondInfo list" where
  "bond_info_step bd acc =
     (let b = fst bd; cond = snd bd; a = fst acc; bonds_data = snd acc;
          a1 = (if b \<notin> set (dict_keys (bonds a))
                then a\<lparr> bonds := dict_set b (BondStatus_create b) (bonds a) \<rparr> else a);
          is_unlocked = (case map_of (bonds a1) b of None \<Rightarrow> False | Some status \<Rightarrow> unlocked status)
      in case progress_of cond a1 of
           Inl e \<Rightarrow> (Some e, a1, bonds_data)
         | Inr progress \<Rightarrow>
             (None, a1, bonds_data @ [\<lparr> info_bond_id = b, info_unlocked = is_unlocked,
                                        info_progress = py_round1 (float_mul progress 100) \<rparr>]))"

text \<open>The loop over \<^verbatim>\<open>BOND_DEFINITIONS\<close>; an exception ends it.\<close>

fun bond_info_loop ::
  "(string \<times> string) list \<Rightarrow> UserAffection \<times> BondInfo list
     \<Rightarrow> py_error option \<times> UserAffection \<times> BondInfo list" where
  "bond_info_loop [] acc = (None, acc)"
| "bond_info_loop (bd # bds) acc =
     (case bond_info_step bd acc of
        (Some e, acc') \<Rightarrow> (Some e, acc')
      | (None, acc') \<Rightarrow> bond_info_loop bds acc')"

record BondInfoResult =
  total_bonds :: nat
  unlocked_count :: nat
  bonds_data :: "BondInfo list"

text \<open>\<^verbatim>\<open>get_bond_info\<close> returns its report or the exception that ended it, the loaded
  profile as the loop left it, and the store, which it never writes.\<close>

definition get_bond_info ::
  "SocialMemoryConfig \<Rightarrow> int \<Rightarrow> string \<Rightarrow> store
     \<Rightarrow> (py_error + BondInfoResult) \<times> SocialData \<times> store" where
  "get_bond_info cfg now uid st =
     (let social_data = get_social_data cfg now uid st;
          r = bond_info_loop BOND_DEFINITIONS (affection social_data, [])
      in ((case fst r of
             Some e \<Rightarrow> Inl e
           | None \<Rightarrow>
               Inr \<lparr> total_bonds = length BOND_DEFINITIONS,
                     unlocked_count = length (filter info_unlocked (snd (snd r))),
                     bonds_data = snd (snd r) \<rparr>),
          social_data\<lparr> affection := fst (snd r) \<rparr>, st))"

subsection \<open>Memory operations\<close>

text \<open>The outcome message of \<^verbatim>\<open>record_user_memory\<close>: \<open>Updated\<close> stands for the message of
  the branch that found the content already stored, \<open>Recorded\<close> for the message of the
  branch that stored a new record.\<close>

datatype outcome = Updated | Recorded

record RecordMemoryResult =
  result_memory_id :: string
  result_message :: outcome

text \<open>The loop over \<^verbatim>\<open>social_data.memories.values()\<close>: it stops at the first record
  whose content equals the argument, raises that record's importance when the argument is
  strictly greater, and returns that record's id. \<open>None\<close> when no record matches.\<close>

fun merge_existing :: "string \<Rightarrow> int \<Rightarrow> UserMemory dict \<Rightarrow> (UserMemory dict \<times> string) option" where
  "merge_existing c imp [] = None"
| "merge_existing c imp ((k, mem) # rest) =
     (if content mem = c
      then Some ((k, if importance mem < imp then mem\<lparr> importance := imp \<rparr> else mem) # rest,
                 memory_id mem)
      else (case merge_existing c imp rest of
              None \<Rightarrow> None
            | Some (rest', mid) \<Rightarrow> Some ((k, mem) # rest', mid)))"

text \<open>The clock readings and the generated id of one \<^verbatim>\<open>record_user_memory\<close> call:
  \<open>gen_id\<close> is what \<^verbatim>\<open>generate_id\<close> returned (a digest of user, content and time).\<close>

record memory_env =
  env_profile :: int
  env_created :: int
  gen_id :: string

definition record_user_memory ::
  "SocialMemoryConfig \<Rightarrow> memory_env \<Rightarrow> string \<Rightarrow> string \<Rightarrow> string \<Rightarrow> string \<Rightarrow> int
     \<Rightarrow> string list option \<Rightarrow> store \<Rightarrow> RecordMemoryResult \<times> store" where
  "record_user_memory cfg env chat_key uid mtype c imp tgs st =
     (let mid = gen_id env;
          social_data = get_social_data cfg (env_profile env) uid st
      in case merge_existing c imp (memories social_data) of
           Some (ms', found) \<Rightarrow>
             (\<lparr> result_memory_id = found, result_message = Updated \<rparr>,
              save_social_data (social_data\<lparr> memories := ms' \<rparr>))
         | None \<Rightarrow>
             (let memory = UserMemory_create (env_created env) mid mtype c chat_key imp
                             (RETENTION_DAYS cfg) tgs
              in (\<lparr> result_memory_id = mid, result_message = Recorded \<rparr>,
                  save_social_data
                    (social_data\<lparr> memories := dict_set mid memory (memories social_data) \<rparr>))))"

text \<open>\<^verbatim>\<open>if memory_types and mem.memory_type not in memory_types\<close>: an absent or empty
  list filters nothing.\<close>

definition type_rejected :: "string list option \<Rightarrow> UserMemory \<Rightarrow> bool" where
  "type_rejected memory_types mem =
     (case memory_types of
        None \<Rightarrow> False
      | Some ts \<Rightarrow> ts \<noteq> [] \<and> memory_type mem \<notin> set ts)"

text \<open>\<^verbatim>\<open>list.sort\<close> is stable, and so is \<^const>\<open>sort_key\<close>.\<close>

definition rank :: "UserMemory list \<Rightarrow> UserMemory list" where
  "rank ms = sort_key (\<lambda>x. (- importance x, - created_at x)) ms"

definition query_select ::
  "rat \<Rightarrow> string list option \<Rightarrow> int \<Rightarrow> int \<Rightarrow> UserMemory dict \<Rightarrow> UserMemory list" where
  "query_select now memory_types min_importance limit ms =
     py_slice_to limit
       (rank (filter (\<lambda>mem. \<not> of_int (expires_at mem) < now
                            \<and> \<not> type_rejected memory_types mem
                            \<and> \<not> importance mem < min_importance)
                     (dict_values ms)))"

record MemoryRow =
  row_memory_id :: string
  row_memory_type :: string
  row_content :: string
  row_importance :: int
  row_created_at :: int
  row_tags :: "string list"

definition query_row :: "UserMemory \<Rightarrow> MemoryRow" where
  "query_row m =
     \<lparr> row_memory_id = memory_id m, row_memory_type = memory_type m, row_content = content m,
       row_importance = importance m, row_created_at = created_at m, row_tags = tags m \<rparr>"

definition query_user_memory ::
  "SocialMemoryConfig \<Rightarrow> int \<Rightarrow> rat \<Rightarrow> string \<Rightarrow> string list option \<Rightarrow> int \<Rightarrow> int \<Rightarrow> store
     \<Rightarrow> MemoryRow list \<times> store" where
  "query_user_memory cfg clk now uid memory_types min_importance limit st =
     (let social_data = get_social_data cfg clk uid st
      in (map query_row (query_select now memory_types min_importance limit (memories social_data)),
          st))"

text \<open>\<^verbatim>\<open>keyword.lower() in mem.content.lower()\<close>. \<^verbatim>\<open>str.lower\<close> is the case mapping of the
  Python runtime over all of Unicode; it is an argument \<open>lower\<close> of the model.\<close>

definition keyword_in :: "(string \<Rightarrow> string) \<Rightarrow> string \<Rightarrow> string \<Rightarrow> bool" where
  "keyword_in lower keyword c = sublist (lower keyword) (lower c)"

text \<open>The loop of \<^verbatim>\<open>search_user_memory\<close>; the two \<^verbatim>\<open>continue\<close> statements also skip the
  test of the limit, which otherwise follows every record and ends the loop.\<close>

fun search_loop ::
  "(string \<Rightarrow> string) \<Rightarrow> rat \<Rightarrow> string \<Rightarrow> string list option \<Rightarrow> int \<Rightarrow> UserMemory list
     \<Rightarrow> UserMemory list \<Rightarrow> UserMemory list" where
  "search_loop lower now keyword memory_types limit [] results = results"
| "search_loop lower now keyword memory_types limit (mem # rest) results =
     (if of_int (expires_at mem) < now
      then search_loop lower now keyword memory_types limit rest results
      else if type_rejected memory_types mem
      then search_loop lower now keyword memory_types limit rest results
      else (let results' = (if keyword_in lower keyword (content mem) then results @ [mem]
                            else results)
            in if limit \<le> int (length results') then results'
               else search_loop lower now keyword memory_types limit rest results'))"

definition search_row :: "UserMemory \<Rightarrow> string \<times> string \<times> string \<times> int" where
  "search_row m = (memory_id m, memory_type m, content m, importance m)"

definition search_user_memory ::
  "(string \<Rightarrow> string) \<Rightarrow> SocialMemoryConfig \<Rightarrow> int \<Rightarrow> rat \<Rightarrow> string \<Rightarrow> string
     \<Rightarrow> string list option \<Rightarrow> int \<Rightarrow> store \<Rightarrow> (string \<times> string \<times> string \<times> int) list \<times> store" where
  "search_user_memory lower cfg clk now uid keyword memory_types limit st =
     (let social_data = get_social_data cfg clk uid st
      in (map search_row
            (search_loop lower now keyword memory_types limit
               (dict_values (memories social_data)) []),
          st))"

text \<open>\<^verbatim>\<open>by_type[t] = by_type.get(t, 0) + 1\<close> for every record that is not expired.\<close>

definition by_type_init :: "int dict" where
  "by_type_init =
     [ (''preference'', 0), (''personal_info'', 0), (''commitment'', 0), (''interest'', 0),
       (''habit'', 0), (''custom'', 0) ]"

definition count_type :: "rat \<Rightarrow> int dict \<Rightarrow> UserMemory \<Rightarrow> int dict" where
  "count_type now by_type mem =
     (if now \<le> of_int (expires_at mem)
      then dict_set (memory_type mem)
             ((case map_of by_type (memory_type mem) of None \<Rightarrow> 0 | Some n \<Rightarrow> n) + 1) by_type
      else by_type)"

record UserSummary =
  total_memories :: nat
  by_type :: "int dict"
  summary_affection :: int
  summary_tier :: AffectionTier
  total_events :: nat
  summary_unlocked_bonds :: "string list"

definition get_user_summary ::
  "SocialMemoryConfig \<Rightarrow> int \<Rightarrow> rat \<Rightarrow> string \<Rightarrow> store \<Rightarrow> UserSummary \<times> store" where
  "get_user_summary cfg clk now uid st =
     (let social_data = get_social_data cfg clk uid st
      in (\<lparr> total_memories = length (memories social_data),
             by_type = foldl (count_type now) by_type_init (dict_values (memories social_data)),
             summary_affection = affection_value (affection social_data),
             summary_tier = get_tier (affection social_data),
             total_events = length (events (affection social_data)),
             summary_unlocked_bonds = get_unlocked_bonds (affection social_data) \<rparr>, st))"

subsection \<open>Composed views\<close>

text \<open>The two text producers are modelled by what they select for each section, before
  the lines are formatted: tier and value, the events, the memory records and the bond ids
  whose names are printed.\<close>

record Sections =
  sec_tier :: AffectionTier
  sec_affection :: int
  sec_events :: "AffectionEvent list"
  sec_memories :: "UserMemory list"
  sec_bonds :: "string list"

definition known_bonds :: "string list \<Rightarrow> string list" where
  "known_bonds bs = filter (\<lambda>b. b \<in> set (map fst BOND_DEFINITIONS)) bs"

definition get_user_profile ::
  "SocialMemoryConfig \<Rightarrow> int \<Rightarrow> rat \<Rightarrow> string \<Rightarrow> store \<Rightarrow> Sections \<times> store" where
  "get_user_profile cfg clk now uid st =
     (let social_data = get_social_data cfg clk uid st; aff = affection social_data
      in (\<lparr> sec_tier = get_tier aff, sec_affection = affection_value aff, sec_events = [],
             sec_memories =
               py_slice_to 10
                 (rank (filter (\<lambda>m. now \<le> of_int (expires_at m))
                          (dict_values (memories social_data)))),
             sec_bonds = known_bonds (get_unlocked_bonds aff) \<rparr>, st))"

text \<open>\<^verbatim>\<open>social_memory_prompt_inject\<close> calls \<^verbatim>\<open>is_expired\<close> once per record, and each call
  reads the clock: \<open>clock i\<close> is the reading for the record at position \<open>i\<close>.\<close>

definition valid_memories ::
  "SocialMemoryConfig \<Rightarrow> (nat \<Rightarrow> rat) \<Rightarrow> UserMemory dict \<Rightarrow> UserMemory list" where
  "valid_memories cfg clock ms =
     py_slice_to (MAX_INJECTED_MEMORIES cfg)
       (rank (map snd
          (filter (\<lambda>(i, m). \<not> is_expired (clock i) m \<and> MIN_IMPORTANCE_SCORE cfg \<le> importance m)
             (enumerate 0 (dict_values ms)))))"

definition social_memory_prompt_inject ::
  "SocialMemoryConfig \<Rightarrow> int \<Rightarrow> (nat \<Rightarrow> rat) \<Rightarrow> string \<Rightarrow> store \<Rightarrow> Sections \<times> store" where
  "social_memory_prompt_inject cfg clk clock uid st =
     (let social_data = get_social_data cfg clk uid st; aff = affection social_data
      in (\<lparr> sec_tier = get_tier aff, sec_affection = affection_value aff,
             sec_events = py_slice_from_neg (AFFECTION_PROMPT_LIMIT cfg) (events aff),
             sec_memories = valid_memories cfg clock (memories social_data),
             sec_bonds = (if ENABLE_BOND_SYSTEM cfg then known_bonds (get_unlocked_bonds aff)
                          else []) \<rparr>, st))"

subsection \<open>The public operations as a transition system\<close>

text \<open>One constructor per mounted method, with the arguments, the clock readings and (for
  the search) the case mapping of the call. \<open>run_op\<close> is the content of the user's slot when the call returns, \<open>profile_after\<close>
  the profile object the call holds in memory when it returns.\<close>

datatype operation =
    GetAffectionState int
  | RecordAffectionEvent event_clock int string string "string option"
  | GetInteractionHistory int int
  | GetBondInfo int
  | RecordMemory memory_env string string string int "string list option"
  | QueryMemory int rat "string list option" int int
  | SearchMemory "string \<Rightarrow> string" int rat string "string list option" int
  | GetUserSummary int rat
  | GetUserProfile int rat
  | PromptInject int "nat \<Rightarrow> rat"

fun run_op :: "SocialMemoryConfig \<Rightarrow> string \<Rightarrow> operation \<Rightarrow> store \<Rightarrow> store" where
  "run_op cfg uid (GetAffectionState t) st = snd (get_affection_state cfg t uid st)"
| "run_op cfg uid (RecordAffectionEvent clk amount etype descr ctx) st =
     snd (record_affection_event cfg clk uid amount etype descr ctx st)"
| "run_op cfg uid (GetInteractionHistory t limit) st =
     snd (get_interaction_history cfg t uid limit st)"
| "run_op cfg uid (GetBondInfo t) st = snd (snd (get_bond_info cfg t uid st))"
| "run_op cfg uid (RecordMemory env chat_key mtype c imp tgs) st =
     snd (record_user_memory cfg env chat_key uid mtype c imp tgs st)"
| "run_op cfg uid (QueryMemory t now tys min_importance limit) st =
     snd (query_user_memory cfg t now uid tys min_importance limit st)"
| "run_op cfg uid (SearchMemory lower t now keyword tys limit) st =
     snd (search_user_memory lower cfg t now uid keyword tys limit st)"
| "run_op cfg uid (GetUserSummary t now) st = snd (get_user_summary cfg t now uid st)"
| "run_op cfg uid (GetUserProfile t now) st = snd (get_user_profile cfg t now uid st)"
| "run_op cfg uid (PromptInject t clock) st = snd (social_memory_prompt_inject cfg t clock uid st)"

definition run_ops :: "SocialMemoryConfig \<Rightarrow> string \<Rightarrow> operation list \<Rightarrow> store \<Rightarrow> store" where
  "run_ops cfg uid ops st = foldl (\<lambda>s op. run_op cfg uid op s) st ops"

text \<open>The clock reading a call hands to \<^verbatim>\<open>get_social_data\<close>.\<close>

fun load_time :: "operation \<Rightarrow> int" where
  "load_time (GetAffectionState t) = t"
| "load_time (RecordAffectionEvent clk amount etype descr ctx) = clk_profile clk"
| "load_time (GetInteractionHistory t limit) = t"
| "load_time (GetBondInfo t) = t"
| "load_time (RecordMemory env chat_key mtype c imp tgs) = env_profile env"
| "load_time (QueryMemory t now tys min_importance limit) = t"
| "load_time (SearchMemory lower t now keyword tys limit) = t"
| "load_time (GetUserSummary t now) = t"
| "load_time (GetUserProfile t now) = t"
| "load_time (PromptInject t clock) = t"

text \<open>The calls that save return the profile they saved; \<^verbatim>\<open>get_bond_info\<close> returns the
  profile its loop wrote to; the other calls leave the loaded profile as it is.\<close>

definition profile_after :: "SocialMemoryConfig \<Rightarrow> string \<Rightarrow> operation \<Rightarrow> store \<Rightarrow> SocialData" where
  "profile_after cfg uid op st =
     (case op of
        GetBondInfo t \<Rightarrow> fst (snd (get_bond_info cfg t uid st))
      | RecordAffectionEvent clk amount etype descr ctx \<Rightarrow>
          get_social_data cfg (load_time op) uid (run_op cfg uid op st)
      | RecordMemory env chat_key mtype c imp tgs \<Rightarrow>
          get_social_data cfg (load_time op) uid (run_op cfg uid op st)
      | _ \<Rightarrow> get_social_data cfg (load_time op) uid st)"

text \<open>The flag \<^verbatim>\<open>bonds[b].unlocked\<close>; a bond without a status is locked.\<close>

definition bond_unlocked :: "string \<Rightarrow> UserAffection \<Rightarrow> bool" where
  "bond_unlocked b a = (case map_of (bonds a) b of None \<Rightarrow> False | Some status \<Rightarrow> unlocked status)"

subsection \<open>Definitions used to state the properties\<close>

text \<open>The tier table of the specification: each band with its inclusive lower bound, in
  no particular order. The band with the highest lower bound that the value reaches wins;
  a value that reaches none is an enemy.\<close>

definition tier_table :: "(int \<times> AffectionTier) list" where
  "tier_table =
     [ (- 59, STRANGER), (- 19, ACQUAINTANCE), (11, FRIEND), (51, CLOSE_FRIEND), (81, SOULMATE) ]"

definition better_band ::
  "int \<Rightarrow> (int \<times> AffectionTier) option \<Rightarrow> int \<times> AffectionTier \<Rightarrow> (int \<times> AffectionTier) option" where
  "better_band v best band =
     (if fst band \<le> v \<and> (case best of None \<Rightarrow> True | Some b \<Rightarrow> fst b < fst band)
      then Some band else best)"

definition tier_of_table :: "int \<Rightarrow> AffectionTier" where
  "tier_of_table v =
     (case foldl (better_band v) None tier_table of None \<Rightarrow> ENEMY | Some band \<Rightarrow> snd band)"

text \<open>The affection ledger that the next call on this slot will load.\<close>

definition loaded :: "SocialMemoryConfig \<Rightarrow> int \<Rightarrow> string \<Rightarrow> store \<Rightarrow> UserAffection" where
  "loaded cfg t uid st = affection (get_social_data cfg t uid st)"

text \<open>A configuration whose history cap is zero, and one event clock.\<close>

definition cap0 :: SocialMemoryConfig where
  "cap0 = default_config\<lparr> MAX_HISTORY_EVENTS := 0 \<rparr>"

definition clock0 :: event_clock where
  "clock0 = \<lparr> clk_profile = 1, clk_event = 2, clk_unlock = (\<lambda>b. 3) \<rparr>"

text \<open>A configuration with the bond system switched off.\<close>

definition bonds_off :: SocialMemoryConfig where
  "bonds_off = default_config\<lparr> ENABLE_BOND_SYSTEM := False \<rparr>"

text \<open>The table of bonds of the specification: each bond with the counter that its
  predicate reads and the threshold that the counter has to reach; \<^verbatim>\<open>first_meet\<close>, whose
  predicate is always true, has neither.\<close>

datatype counter = TotalPositive | CrisisEvents | AffectionValue

fun counter_value :: "counter \<Rightarrow> UserAffection \<Rightarrow> int" where
  "counter_value TotalPositive a = total_positive a"
| "counter_value CrisisEvents a = int (crisis_count a)"
| "counter_value AffectionValue a = affection_value a"

definition bond_table :: "(string \<times> (counter \<times> int) option) list" where
  "bond_table =
     [ (''first_meet'', None),
       (''shared_laugh'', Some (TotalPositive, 5)),
       (''deep_conversation'', Some (TotalPositive, 10)),
       (''trusted_confidant'', Some (TotalPositive, 20)),
       (''storm_together'', Some (CrisisEvents, 3)),
       (''heart_to_heart'', Some (AffectionValue, 80)) ]"


definition rule_progress :: "(counter \<times> int) option \<Rightarrow> UserAffection \<Rightarrow> py_error + rat" where
  "rule_progress rule a =
     (case rule of None \<Rightarrow> Inr 1 | Some (c, n) \<Rightarrow> capped_ratio (counter_value c a) n)"

text \<open>The figure reported for a progress \<open>f\<close>: \<^verbatim>\<open>round(f * 100, 1)\<close>.\<close>

definition percentage :: "rat \<Rightarrow> pyfloat" where
  "percentage f = py_round1 (float_mul f 100)"



text \<open>The values of a list of results, or the first error in it.\<close>

fun collect :: "('e + 'a) list \<Rightarrow> 'e + 'a list" where
  "collect [] = Inr []"
| "collect (x # xs) =
     (case x of
        Inl e \<Rightarrow> Inl e
      | Inr v \<Rightarrow> (case collect xs of Inl e \<Rightarrow> Inl e | Inr vs \<Rightarrow> Inr (v # vs)))"

text \<open>The bond report read off the table: one entry per row, in the order of the table,
  with the unlocked flag of the ledger and the percentage of the row's progress; the first
  division that raises is the outcome of the whole report.\<close>

definition bond_row :: "UserAffection \<Rightarrow> string \<times> rat \<Rightarrow> BondInfo" where
  "bond_row a r =
     \<lparr> info_bond_id = fst r, info_unlocked = bond_unlocked (fst r) a,
       info_progress = percentage (snd r) \<rparr>"

definition bond_report :: "UserAffection \<Rightarrow> py_error + BondInfoResult" where
  "bond_report a =
     (case collect (map (\<lambda>row. rule_progress (snd row) a) bond_table) of
        Inl e \<Rightarrow> Inl e
      | Inr fs \<Rightarrow>
          (let data = map (bond_row a) (zip (map fst bond_table) fs)
           in Inr \<lparr> total_bonds = 6, unlocked_count = length (filter info_unlocked data),
                    bonds_data = data \<rparr>))"

text \<open>The ledger with a default status for bond \<open>b\<close> if it had none.\<close>

definition with_status :: "string \<Rightarrow> UserAffection \<Rightarrow> UserAffection" where
  "with_status b a =
     (if b \<notin> set (dict_keys (bonds a))
      then a\<lparr> bonds := dict_set b (BondStatus_create b) (bonds a) \<rparr> else a)"


definition st_minus40 :: store where
  "st_minus40 = run_ops default_config ''u''
            [ RecordAffectionEvent clock0 (- 20) ''negative'' ''quarrel'' None,
              RecordAffectionEvent clock0 (- 20) ''negative'' ''quarrel'' None ] None"

definition st_overflow :: store where
  "st_overflow =
     Some \<lparr> affection = (UserAffection_create 0 ''u'' 0)\<lparr> total_positive := 5 * 2 ^ 1024 \<rparr>,
            memories = [] \<rparr>"

text \<open>Two calls of \<^verbatim>\<open>record_user_memory\<close>, a minute apart, and operations that store
  the same content with different importance.\<close>

definition mem_env0 :: memory_env where
  "mem_env0 = \<lparr> env_profile = 0, env_created = 0, gen_id = ''mem_0'' \<rparr>"

definition mem_env1 :: memory_env where
  "mem_env1 = \<lparr> env_profile = 60, env_created = 60, gen_id = ''mem_1'' \<rparr>"

text \<open>The importance as the scan leaves it in the record it found.\<close>

definition raised :: "int \<Rightarrow> UserMemory \<Rightarrow> UserMemory" where
  "raised imp mem = (if importance mem < imp then mem\<lparr> importance := imp \<rparr> else mem)"

text \<open>\<open>first_match c ms pre k mem post\<close>: the record \<open>mem\<close> under key \<open>k\<close> is the first one of
  \<open>ms\<close> whose content is \<open>c\<close>.\<close>

definition first_match ::
  "string \<Rightarrow> UserMemory dict \<Rightarrow> UserMemory dict \<Rightarrow> string \<Rightarrow> UserMemory \<Rightarrow> UserMemory dict \<Rightarrow> bool" where
  "first_match c ms pre k mem post \<longleftrightarrow>
     ms = pre @ (k, mem) # post \<and> content mem = c \<and> (\<forall>x \<in> set pre. content (snd x) \<noteq> c)"

definition tea3 :: operation where
  "tea3 = RecordMemory mem_env0 ''chat'' ''preference'' ''likes tea'' 3 None"

definition tea8 :: operation where
  "tea8 = RecordMemory mem_env1 ''chat'' ''preference'' ''likes tea'' 8 None"

definition tea15 :: operation where
  "tea15 = RecordMemory mem_env1 ''chat'' ''preference'' ''likes tea'' 15 None"

section \<open>Properties\<close>

subsection \<open>Tiers\<close>

lemma tier_of_table_eq:
  "tier_of_table v =
     (if 81 \<le> v then SOULMATE else if 51 \<le> v then CLOSE_FRIEND else if 11 \<le> v then FRIEND
      else if - 19 \<le> v then ACQUAINTANCE else if - 59 \<le> v then STRANGER else ENEMY)"
  by (simp add: tier_of_table_def tier_table_def better_band_def)

text \<open>C5. For every affection value the tier is the band of the table with the highest
  lower bound that the value reaches: soulmate from 81, close friend from 51, friend from
  11, acquaintance from -19, stranger from -59, enemy below. In particular 10 is an
  acquaintance, 11 and 50 are friends, 51 is a close friend. The statement holds for every
  integer, so also for those in [-100, 100].\<close>

theorem get_tier_matches_table:
  "get_tier a = tier_of_table (affection_value a)
   \<and> (get_tier a = SOULMATE \<longleftrightarrow> 81 \<le> affection_value a)
   \<and> (get_tier a = CLOSE_FRIEND \<longleftrightarrow> 51 \<le> affection_value a \<and> affection_value a \<le> 80)
   \<and> (get_tier a = FRIEND \<longleftrightarrow> 11 \<le> affection_value a \<and> affection_value a \<le> 50)
   \<and> (get_tier a = ACQUAINTANCE \<longleftrightarrow> - 19 \<le> affection_value a \<and> affection_value a \<le> 10)
   \<and> (get_tier a = STRANGER \<longleftrightarrow> - 59 \<le> affection_value a \<and> affection_value a \<le> - 20)
   \<and> (get_tier a = ENEMY \<longleftrightarrow> affection_value a \<le> - 60)
   \<and> get_tier (a\<lparr> affection_value := 10 \<rparr>) = ACQUAINTANCE
   \<and> get_tier (a\<lparr> affection_value := 11 \<rparr>) = FRIEND
   \<and> get_tier (a\<lparr> affection_value := 50 \<rparr>) = FRIEND
   \<and> get_tier (a\<lparr> affection_value := 51 \<rparr>) = CLOSE_FRIEND"
  by (simp add: get_tier_def tier_of_table_eq Let_def)

theorem get_tier_matches_table_witness:
  "get_tier (UserAffection_create 0 ''u'' 50) = tier_of_table 50
   \<and> get_tier (UserAffection_create 0 ''u'' 50) = FRIEND
   \<and> get_tier ((UserAffection_create 0 ''u'' 50)\<lparr> affection_value := 51 \<rparr>) = CLOSE_FRIEND"
  using get_tier_matches_table [of "UserAffection_create 0 ''u'' 50"]
  by (simp add: UserAffection_create_def tier_of_table_eq)

subsection \<open>The affection ledger\<close>

lemma py_slice_from_neg_length: "0 < n \<Longrightarrow> int (length (py_slice_from_neg n xs)) \<le> n"
  by (simp add: py_slice_from_neg_def)

lemma py_slice_from_neg_suffix: "suffix (py_slice_from_neg n xs) xs"
  by (simp add: py_slice_from_neg_def suffix_drop)

lemma events_add_event: "events (add_event e n a) = py_slice_from_neg n (events a @ [e])"
  by (simp add: add_event_def Let_def)

lemma affection_value_add_event: "affection_value (add_event e n a) = affection_value a"
  by (simp add: add_event_def Let_def)

lemma check_bond_frame:
  "affection_value (fst (check_bond clk bd acc)) = affection_value (fst acc)
   \<and> events (fst (check_bond clk bd acc)) = events (fst acc)
   \<and> total_positive (fst (check_bond clk bd acc)) = total_positive (fst acc)"
  by (simp add: check_bond_def Let_def split: option.split)

lemma check_bonds_frame:
  "affection_value (fst (check_bonds clk a)) = affection_value a
   \<and> events (fst (check_bonds clk a)) = events a
   \<and> total_positive (fst (check_bonds clk a)) = total_positive a"
proof -
  have "affection_value (fst (foldl (\<lambda>acc bd. check_bond clk bd acc) acc bds)) = affection_value (fst acc)
   \<and> events (fst (foldl (\<lambda>acc bd. check_bond clk bd acc) acc bds)) = events (fst acc)
   \<and> total_positive (fst (foldl (\<lambda>acc bd. check_bond clk bd acc) acc bds)) = total_positive (fst acc)"
    for acc bds
    by (induction bds arbitrary: acc) (simp_all add: check_bond_frame)
  then show ?thesis by (simp add: check_bonds_def)
qed

lemma record_affection_event_saves:
  "\<exists>d. snd (record_affection_event cfg clk uid amount etype descr ctx st) = Some d"
  by (simp add: record_affection_event_def save_social_data_def Let_def)

lemma saved_events:
  "snd (record_affection_event cfg clk uid amount etype descr ctx st) = Some d \<Longrightarrow>
   events (affection d) =
     py_slice_from_neg (MAX_HISTORY_EVENTS cfg)
       (events (affection (get_social_data cfg (clk_profile clk) uid st))
        @ [AffectionEvent_create (clk_event clk) (max (- 20) (min 20 amount)) etype descr ctx])"
  by (auto simp add: record_affection_event_def save_social_data_def Let_def check_bonds_frame
      events_add_event)

lemma saved_value:
  "snd (record_affection_event cfg clk uid amount etype descr ctx st) = Some d \<Longrightarrow>
   affection_value (affection d) =
     max (- 100) (min 100 (affection_value (affection (get_social_data cfg (clk_profile clk) uid st))
        + max (- 20) (min 20 amount)))"
  by (auto simp add: record_affection_event_def save_social_data_def Let_def check_bonds_frame
      affection_value_add_event)

text \<open>After every call the saved affection value is within [-100, 100].\<close>

lemma record_affection_event_value_bounds:
  assumes "snd (record_affection_event cfg clk uid amount etype descr ctx st) = Some d"
  shows "- 100 \<le> affection_value (affection d) \<and> affection_value (affection d) \<le> 100"
  using saved_value[OF assms] by simp

text \<open>With a positive cap the saved history is no longer than the cap.\<close>

lemma record_affection_event_history_cap:
  assumes "snd (record_affection_event cfg clk uid amount etype descr ctx st) = Some d"
    and "0 < MAX_HISTORY_EVENTS cfg"
  shows "int (length (events (affection d))) \<le> MAX_HISTORY_EVENTS cfg"
  using saved_events[OF assms(1)] assms(2) by (simp add: py_slice_from_neg_length)

text \<open>The saved history is a suffix of the old history followed by the new event: what
  is dropped is dropped from the old end.\<close>

lemma record_affection_event_keeps_newest:
  assumes "snd (record_affection_event cfg clk uid amount etype descr ctx st) = Some d"
  shows "suffix (events (affection d))
           (events (affection (get_social_data cfg (clk_profile clk) uid st))
            @ [AffectionEvent_create (clk_event clk) (max (- 20) (min 20 amount)) etype descr ctx])"
  unfolding saved_events[OF assms] by (rule py_slice_from_neg_suffix)

text \<open>C1. The claim bounds the history by the configured cap after every call. With
  \<^verbatim>\<open>MAX_HISTORY_EVENTS = 0\<close> the slice \<^verbatim>\<open>events[-0:]\<close> is the whole list: two calls on a
  new user leave two events in a history whose cap is zero, the oldest one included.\<close>

theorem history_cap_zero_keeps_every_event:
  "MAX_HISTORY_EVENTS cap0 = 0
   \<and> map description (events (loaded cap0 0 ''u''
        (run_ops cap0 ''u''
           [ RecordAffectionEvent clock0 5 ''positive'' ''first'' None,
             RecordAffectionEvent clock0 (- 3) ''negative'' ''second'' None ] None)))
     = [''first'', ''second'']"
  by code_simp

subsection \<open>Bond evaluation\<close>

lemma should_unlock_bonds [simp]: "should_unlock cond (a\<lparr> bonds := bs \<rparr>) = should_unlock cond a"
  by (simp add: should_unlock_def crisis_count_def)

lemma key_absent: "b \<notin> set (dict_keys bs) \<longleftrightarrow> map_of bs b = None"
  by (simp add: dict_keys_def map_of_eq_None_iff)

lemma map_of_dict_set: "map_of (dict_set k v d) = (map_of d)(k \<mapsto> v)"
  by (simp add: dict_set_def update_conv')

lemma check_bond_absent:
  assumes "map_of (bonds (fst acc)) (fst bd) = None"
  shows "fst (check_bond clk bd acc) =
     (if should_unlock (snd bd) (fst acc)
      then (fst acc)\<lparr> bonds := dict_set (fst bd)
              ((BondStatus_create (fst bd))\<lparr> unlocked := True, unlock_time := clk (fst bd) \<rparr>)
              (dict_set (fst bd) (BondStatus_create (fst bd)) (bonds (fst acc))) \<rparr>
      else (fst acc)\<lparr> bonds := dict_set (fst bd) (BondStatus_create (fst bd)) (bonds (fst acc)) \<rparr>)"
  using assms
  by (simp add: check_bond_def Let_def key_absent map_of_dict_set BondStatus_create_def)

lemma check_bond_present:
  assumes "map_of (bonds (fst acc)) (fst bd) = Some status"
  shows "fst (check_bond clk bd acc) =
     (if \<not> unlocked status \<and> should_unlock (snd bd) (fst acc)
      then (fst acc)\<lparr> bonds := dict_set (fst bd)
              (status\<lparr> unlocked := True, unlock_time := clk (fst bd) \<rparr>) (bonds (fst acc)) \<rparr>
      else fst acc)"
  using assms
  by (simp add: check_bond_def Let_def key_absent)

lemma check_bond_unlocked:
  "bond_unlocked b' (fst (check_bond clk bd acc))
     = (if b' = fst bd then bond_unlocked b' (fst acc) \<or> should_unlock (snd bd) (fst acc)
        else bond_unlocked b' (fst acc))"
proof (cases "map_of (bonds (fst acc)) (fst bd)")
  case None
  show ?thesis
    unfolding check_bond_absent[OF None]
    using None by (simp add: bond_unlocked_def map_of_dict_set BondStatus_create_def)
next
  case (Some status)
  show ?thesis
    unfolding check_bond_present[OF Some]
    using Some by (simp add: bond_unlocked_def map_of_dict_set)
qed

lemma check_bond_should_unlock [simp]:
  "should_unlock c (fst (check_bond clk bd acc)) = should_unlock c (fst acc)"
proof (cases "map_of (bonds (fst acc)) (fst bd)")
  case None
  show ?thesis unfolding check_bond_absent[OF None] by simp
next
  case (Some status)
  show ?thesis unfolding check_bond_present[OF Some] by simp
qed

lemma check_bond_keeps_unlocked:
  "bond_unlocked b (fst acc) \<Longrightarrow> bond_unlocked b (fst (check_bond clk bd acc))"
  by (auto simp add: check_bond_unlocked)

lemma check_bonds_keeps_unlocked:
  assumes "bond_unlocked b a"
  shows "bond_unlocked b (fst (check_bonds clk a))"
proof -
  have "bond_unlocked b (fst acc) \<Longrightarrow>
        bond_unlocked b (fst (foldl (\<lambda>acc bd. check_bond clk bd acc) acc bds))" for acc bds
    by (induction bds arbitrary: acc) (simp_all add: check_bond_keeps_unlocked)
  from this[of "(a, [])"] assms show ?thesis
    by (simp add: check_bonds_def)
qed

lemma check_bonds_shared_laugh:
  "bond_unlocked ''shared_laugh'' (fst (check_bonds clk a))
     = (bond_unlocked ''shared_laugh'' a \<or> 5 \<le> total_positive a)"
  by (simp add: check_bonds_def BOND_DEFINITIONS_def check_bond_unlocked should_unlock_def
      check_bond_frame)

lemma add_event_total_positive:
  "total_positive (add_event e n a)
     = (if 0 < change_amount e then total_positive a + change_amount e else total_positive a)"
  by (simp add: add_event_def Let_def)

lemma add_event_bonds: "bonds (add_event e n a) = bonds a"
  by (simp add: add_event_def Let_def)

lemma bond_unlocked_add_event [simp]: "bond_unlocked b (add_event e n a) = bond_unlocked b a"
  by (simp add: bond_unlocked_def add_event_bonds)

lemma bond_unlocked_affection_value [simp]:
  "bond_unlocked b (a\<lparr> affection_value := v \<rparr>) = bond_unlocked b a"
  by (simp add: bond_unlocked_def)

lemma bond_unlocked_cong: "bonds a = bonds a' \<Longrightarrow> bond_unlocked b a = bond_unlocked b a'"
  by (simp add: bond_unlocked_def)

lemma loaded_record_affection_event:
  "loaded cfg t uid (snd (record_affection_event cfg clk uid amount etype descr ctx st)) =
     (let a1 = add_event (AffectionEvent_create (clk_event clk) (max (- 20) (min 20 amount)) etype descr ctx)
                 (MAX_HISTORY_EVENTS cfg) (loaded cfg (clk_profile clk) uid st);
          a2 = a1\<lparr> affection_value := max (- 100) (min 100 (affection_value a1 + max (- 20) (min 20 amount))) \<rparr>
      in if ENABLE_BOND_SYSTEM cfg then fst (check_bonds (clk_unlock clk) a2) else a2)"
  by (simp add: loaded_def record_affection_event_def get_social_data_def save_social_data_def Let_def)

lemma loaded_fresh_indep:
  "total_positive (loaded cfg t uid st) = total_positive (loaded cfg t' uid st)"
  "bonds (loaded cfg t uid st) = bonds (loaded cfg t' uid st)"
  "bond_unlocked b (loaded cfg t uid st) = bond_unlocked b (loaded cfg t' uid st)"
  by (simp_all add: loaded_def get_social_data_def SocialData_create_def UserAffection_create_def
      bond_unlocked_def split: option.split)

lemma loaded_record_user_memory:
  "total_positive (loaded cfg t uid (snd (record_user_memory cfg env chat_key uid mtype c imp tgs st)))
     = total_positive (loaded cfg t uid st)"
  "bonds (loaded cfg t uid (snd (record_user_memory cfg env chat_key uid mtype c imp tgs st)))
     = bonds (loaded cfg t uid st)"
  by (simp_all add: loaded_def record_user_memory_def get_social_data_def save_social_data_def
      SocialData_create_def UserAffection_create_def Let_def split: option.split)

lemma read_only_ops:
  "snd (get_affection_state cfg t uid st) = st"
  "snd (get_interaction_history cfg t uid limit st) = st"
  "snd (snd (get_bond_info cfg t uid st)) = st"
  "snd (query_user_memory cfg t now uid tys min_importance limit st) = st"
  "snd (search_user_memory lower cfg t now uid keyword tys limit st) = st"
  "snd (get_user_summary cfg t now uid st) = st"
  "snd (get_user_profile cfg t now uid st) = st"
  "snd (social_memory_prompt_inject cfg t clock uid st) = st"
  by (simp_all add: get_affection_state_def get_interaction_history_def get_bond_info_def
      query_user_memory_def search_user_memory_def get_user_summary_def get_user_profile_def
      social_memory_prompt_inject_def Let_def)

subsection \<open>Bonds along sequences of calls\<close>

lemma run_ops_snoc: "run_ops cfg uid (ops @ [op]) st = run_op cfg uid op (run_ops cfg uid ops st)"
  by (simp add: run_ops_def)

lemma op_kinds:
  obtains (event) clk amount etype descr ctx where "op = RecordAffectionEvent clk amount etype descr ctx"
  | (memory) env chat_key mtype c imp tgs where "op = RecordMemory env chat_key mtype c imp tgs"
  | (read_only) "\<And>cfg uid st. run_op cfg uid op st = st"
proof (cases op)
  case (RecordAffectionEvent clk amount etype descr ctx)
  then show ?thesis by (rule event)
next
  case (RecordMemory env chat_key mtype c imp tgs)
  then show ?thesis by (rule memory)
next
  case (GetAffectionState t)
  show ?thesis by (rule read_only) (simp add: GetAffectionState read_only_ops)
next
  case (GetInteractionHistory t limit)
  show ?thesis by (rule read_only) (simp add: GetInteractionHistory read_only_ops)
next
  case (GetBondInfo t)
  show ?thesis by (rule read_only) (simp add: GetBondInfo read_only_ops)
next
  case (QueryMemory t now tys min_importance limit)
  show ?thesis by (rule read_only) (simp add: QueryMemory read_only_ops)
next
  case (SearchMemory lower t now keyword tys limit)
  show ?thesis by (rule read_only) (simp add: SearchMemory read_only_ops)
next
  case (GetUserSummary t now)
  show ?thesis by (rule read_only) (simp add: GetUserSummary read_only_ops)
next
  case (GetUserProfile t now)
  show ?thesis by (rule read_only) (simp add: GetUserProfile read_only_ops)
next
  case (PromptInject t clock)
  show ?thesis by (rule read_only) (simp add: PromptInject read_only_ops)
qed

lemma bond_unlocked_record_user_memory:
  "bond_unlocked b (loaded cfg t uid (snd (record_user_memory cfg env chat_key uid mtype c imp tgs st)))
      = bond_unlocked b (loaded cfg t uid st)"
  by (rule bond_unlocked_cong) (rule loaded_record_user_memory(2))

lemma run_op_keeps_unlocked:
  assumes "bond_unlocked b (loaded cfg t uid st)"
  shows "bond_unlocked b (loaded cfg t' uid (run_op cfg uid op st))"
proof (cases op rule: op_kinds)
  case (event clk amount etype descr ctx)
  let ?a0 = "loaded cfg (clk_profile clk) uid st"
  let ?a1 = "add_event (AffectionEvent_create (clk_event clk) (max (- 20) (min 20 amount)) etype descr ctx)
                 (MAX_HISTORY_EVENTS cfg) ?a0"
  let ?a2 = "?a1\<lparr> affection_value := max (- 100) (min 100 (affection_value ?a1 + max (- 20) (min 20 amount))) \<rparr>"
  have "bond_unlocked b ?a0"
    using assms loaded_fresh_indep(3) by blast
  then have a2: "bond_unlocked b ?a2"
    by simp
  then have "bond_unlocked b (fst (check_bonds (clk_unlock clk) ?a2))"
    by (rule check_bonds_keeps_unlocked)
  with a2 show ?thesis
    unfolding event run_op.simps loaded_record_affection_event by (simp add: Let_def)
next
  case (memory env chat_key mtype c imp tgs)
  have "bond_unlocked b (loaded cfg t' uid st)"
    using assms loaded_fresh_indep(3) by blast
  then show ?thesis
    unfolding memory run_op.simps bond_unlocked_record_user_memory .
next
  case read_only
  have "bond_unlocked b (loaded cfg t' uid st)"
    using assms loaded_fresh_indep(3) by blast
  then show ?thesis
    unfolding read_only .
qed

lemma run_op_total_positive_mono:
  "total_positive (loaded cfg t uid st) \<le> total_positive (loaded cfg t uid (run_op cfg uid op st))"
proof (cases op rule: op_kinds)
  case (event clk amount etype descr ctx)
  have "total_positive (loaded cfg t uid st) = total_positive (loaded cfg (clk_profile clk) uid st)"
    by (rule loaded_fresh_indep(1))
  then show ?thesis
    unfolding event run_op.simps loaded_record_affection_event
    by (simp add: Let_def check_bonds_frame add_event_total_positive)
next
  case (memory env chat_key mtype c imp tgs)
  show ?thesis
    unfolding memory run_op.simps loaded_record_user_memory(1) by (rule order_refl)
next
  case read_only
  show ?thesis unfolding read_only by (rule order_refl)
qed

lemma run_op_shared_laugh:
  assumes "ENABLE_BOND_SYSTEM cfg"
    and "bond_unlocked ''shared_laugh'' (loaded cfg t uid st) \<longleftrightarrow> 5 \<le> total_positive (loaded cfg t uid st)"
  shows "bond_unlocked ''shared_laugh'' (loaded cfg t uid (run_op cfg uid op st))
     \<longleftrightarrow> 5 \<le> total_positive (loaded cfg t uid (run_op cfg uid op st))"
proof (cases op rule: op_kinds)
  case (event clk amount etype descr ctx)
  define a0 where "a0 = loaded cfg (clk_profile clk) uid st"
  define a1 where "a1 = add_event (AffectionEvent_create (clk_event clk) (max (- 20) (min 20 amount))
                    etype descr ctx) (MAX_HISTORY_EVENTS cfg) a0"
  define a2 where "a2 = a1\<lparr> affection_value :=
                    max (- 100) (min 100 (affection_value a1 + max (- 20) (min 20 amount))) \<rparr>"
  define a3 where "a3 = fst (check_bonds (clk_unlock clk) a2)"
  have inv0: "bond_unlocked ''shared_laugh'' a0 \<longleftrightarrow> 5 \<le> total_positive a0"
    unfolding a0_def
    using assms(2) loaded_fresh_indep(1)[of cfg t uid st "clk_profile clk"]
      loaded_fresh_indep(3)[of "''shared_laugh''" cfg t uid st "clk_profile clk"] by simp
  have tp: "total_positive a0 \<le> total_positive a2"
    by (simp add: a2_def a1_def add_event_total_positive)
  have b2: "bond_unlocked ''shared_laugh'' a2 = bond_unlocked ''shared_laugh'' a0"
    by (simp add: a2_def a1_def)
  have "bond_unlocked ''shared_laugh'' a3
          \<longleftrightarrow> bond_unlocked ''shared_laugh'' a2 \<or> 5 \<le> total_positive a2"
    unfolding a3_def by (rule check_bonds_shared_laugh)
  with inv0 tp b2 have "bond_unlocked ''shared_laugh'' a3 \<longleftrightarrow> 5 \<le> total_positive a2"
    by auto
  moreover have "total_positive a3 = total_positive a2"
    unfolding a3_def by (simp add: check_bonds_frame)
  ultimately have r: "bond_unlocked ''shared_laugh'' a3 \<longleftrightarrow> 5 \<le> total_positive a3"
    by simp
  have eq: "loaded cfg t uid (run_op cfg uid op st) = a3"
    unfolding event run_op.simps loaded_record_affection_event a3_def a2_def a1_def a0_def
    using assms(1) by (simp add: Let_def)
  show ?thesis unfolding eq by (rule r)
next
  case (memory env chat_key mtype c imp tgs)
  show ?thesis
    unfolding memory run_op.simps bond_unlocked_record_user_memory loaded_record_user_memory(1)
    by (rule assms(2))
next
  case read_only
  show ?thesis unfolding read_only by (rule assms(2))
qed

lemma run_ops_shared_laugh:
  assumes "ENABLE_BOND_SYSTEM cfg"
  shows "bond_unlocked ''shared_laugh'' (loaded cfg t uid (run_ops cfg uid ops None))
     \<longleftrightarrow> 5 \<le> total_positive (loaded cfg t uid (run_ops cfg uid ops None))"
proof (induction ops rule: rev_induct)
  case Nil
  show ?case
    by (simp add: run_ops_def loaded_def get_social_data_def SocialData_create_def
        UserAffection_create_def bond_unlocked_def)
next
  case (snoc op ops)
  then show ?case
    unfolding run_ops_snoc by (rule run_op_shared_laugh[OF assms])
qed

text \<open>C6. With the bond system enabled, starting from a user without a profile and after
  any sequence of calls of the public operations (calls of \<^verbatim>\<open>record_affection_event\<close> among
  them), \<^verbatim>\<open>shared_laugh\<close> is unlocked exactly when \<^verbatim>\<open>total_positive\<close> is at least 5.
  \<^verbatim>\<open>total_positive\<close> never decreases, so the flag turns from false to true at the one call
  that takes \<^verbatim>\<open>total_positive\<close> from below 5 to 5 or more. Under every configuration and
  from every stored profile, no operation turns an unlocked flag of any bond back to
  false.\<close>

theorem shared_laugh_unlocks_at_five_and_stays:
  assumes "ENABLE_BOND_SYSTEM cfg"
  shows
    "(bond_unlocked ''shared_laugh'' (loaded cfg t uid (run_ops cfg uid ops None))
        \<longleftrightarrow> 5 \<le> total_positive (loaded cfg t uid (run_ops cfg uid ops None)))
     \<and> total_positive (loaded cfg t uid (run_ops cfg uid ops None))
          \<le> total_positive (loaded cfg t uid (run_ops cfg uid (ops @ [op]) None))
     \<and> ((\<not> bond_unlocked ''shared_laugh'' (loaded cfg t uid (run_ops cfg uid ops None))
           \<and> bond_unlocked ''shared_laugh'' (loaded cfg t uid (run_ops cfg uid (ops @ [op]) None)))
         \<longleftrightarrow> (total_positive (loaded cfg t uid (run_ops cfg uid ops None)) < 5
              \<and> 5 \<le> total_positive (loaded cfg t uid (run_ops cfg uid (ops @ [op]) None))))
     \<and> (\<forall>cfg' st b. bond_unlocked b (loaded cfg' t uid st)
            \<longrightarrow> bond_unlocked b (loaded cfg' t uid (run_op cfg' uid op st)))"
proof -
  let ?before = "loaded cfg t uid (run_ops cfg uid ops None)"
  let ?after = "loaded cfg t uid (run_ops cfg uid (ops @ [op]) None)"
  have inv_before: "bond_unlocked ''shared_laugh'' ?before \<longleftrightarrow> 5 \<le> total_positive ?before"
    by (rule run_ops_shared_laugh[OF assms])
  have inv_after: "bond_unlocked ''shared_laugh'' ?after \<longleftrightarrow> 5 \<le> total_positive ?after"
    by (rule run_ops_shared_laugh[OF assms])
  have mono: "total_positive ?before \<le> total_positive ?after"
    unfolding run_ops_snoc by (rule run_op_total_positive_mono)
  have stays: "\<forall>cfg' st b. bond_unlocked b (loaded cfg' t uid st)
            \<longrightarrow> bond_unlocked b (loaded cfg' t uid (run_op cfg' uid op st))"
    using run_op_keeps_unlocked by blast
  have edge: "(\<not> bond_unlocked ''shared_laugh'' ?before \<and> bond_unlocked ''shared_laugh'' ?after)
         \<longleftrightarrow> (total_positive ?before < 5 \<and> 5 \<le> total_positive ?after)"
    unfolding inv_before inv_after by linarith
  from inv_before mono edge stays show ?thesis
    by blast
qed

theorem shared_laugh_unlocks_at_five_and_stays_witness:
  "ENABLE_BOND_SYSTEM default_config
   \<and> \<not> bond_unlocked ''shared_laugh'' (loaded default_config 0 ''u''
         (run_ops default_config ''u'' [RecordAffectionEvent clock0 3 ''positive'' ''thanks'' None] None))
   \<and> bond_unlocked ''shared_laugh'' (loaded default_config 0 ''u''
         (run_ops default_config ''u''
            ([RecordAffectionEvent clock0 3 ''positive'' ''thanks'' None]
             @ [RecordAffectionEvent clock0 2 ''positive'' ''praise'' None]) None))"
proof -
  have h: "ENABLE_BOND_SYSTEM default_config"
    by (simp add: default_config_def)
  have before: "total_positive (loaded default_config 0 ''u''
         (run_ops default_config ''u'' [RecordAffectionEvent clock0 3 ''positive'' ''thanks'' None] None)) = 3"
    by code_simp
  have after: "total_positive (loaded default_config 0 ''u''
         (run_ops default_config ''u''
            ([RecordAffectionEvent clock0 3 ''positive'' ''thanks'' None]
             @ [RecordAffectionEvent clock0 2 ''positive'' ''praise'' None]) None)) = 5"
    by code_simp
  show ?thesis
    using h before after
      shared_laugh_unlocks_at_five_and_stays [OF h, of 0 "''u''"
        "[RecordAffectionEvent clock0 3 ''positive'' ''thanks'' None]"
        "RecordAffectionEvent clock0 2 ''positive'' ''praise'' None"]
    by simp
qed

subsection \<open>Doubles\<close>

subsection \<open>Rounding to the nearest integer\<close>

lemma round_half_even_cases:
  "round_half_even y = \<lfloor>y\<rfloor> \<or> round_half_even y = \<lfloor>y\<rfloor> + 1"
  by (simp add: round_half_even_def Let_def)

lemma round_half_even_le:
  assumes "y \<le> of_int N" shows "round_half_even y \<le> N"
proof (cases "\<lfloor>y\<rfloor> = N")
  case True
  have "of_int \<lfloor>y\<rfloor> \<le> y" by (rule of_int_floor_le)
  with True assms have "y = of_int N" by simp
  then show ?thesis by (simp add: round_half_even_def Let_def)
next
  case False
  have "\<lfloor>y\<rfloor> \<le> N" using assms by (simp add: floor_le_iff)
  with False have "\<lfloor>y\<rfloor> + 1 \<le> N" by simp
  with round_half_even_cases [of y] show ?thesis by auto
qed

lemma round_half_even_ge:
  assumes "of_int N \<le> y" shows "N \<le> round_half_even y"
proof -
  have "N \<le> \<lfloor>y\<rfloor>" using assms by (simp add: le_floor_iff)
  with round_half_even_cases [of y] show ?thesis by auto
qed

lemma round_half_even_err: "\<bar>of_int (round_half_even y) - y\<bar> \<le> 1 / 2"
proof -
  define f where "f = \<lfloor>y\<rfloor>"
  define d where "d = y - of_int f"
  have d: "0 \<le> d" "d < 1" "y = of_int f + d"
    unfolding d_def f_def using floor_correct [of y] by simp_all
  have "round_half_even y = (if d < 1 / 2 then f else if 1 / 2 < d then f + 1
                              else if even f then f else f + 1)"
    by (simp add: round_half_even_def Let_def f_def d_def)
  then show ?thesis using d by (auto simp: abs_if)
qed

lemma round_half_even_eqI:
  assumes "\<bar>y - of_int m\<bar> < 1 / 2" shows "round_half_even y = m"
proof -
  have "\<bar>(of_int (round_half_even y) :: rat) - of_int m\<bar> < 1"
    using round_half_even_err [of y] assms by linarith
  then have "\<bar>(of_int (round_half_even y - m) :: rat)\<bar> < of_int 1" by simp
  then have "\<bar>round_half_even y - m\<bar> < 1"
    unfolding of_int_abs [symmetric] of_int_less_iff .
  then show ?thesis by simp
qed

subsection \<open>The binary exponent\<close>

lemma bitlen_rat_bounds:
  assumes "0 < p"
  shows "(2::rat) powi (bitlen p - 1) \<le> of_int p" "(of_int p :: rat) < 2 powi bitlen p"
proof -
  from bitlen_bounds [OF assms]
  have a: "2 ^ nat (bitlen p - 1) \<le> p" and b: "p < 2 ^ nat (bitlen p)" by simp_all
  have pos: "1 \<le> bitlen p"
  proof (rule ccontr)
    assume "\<not> 1 \<le> bitlen p"
    then have "nat (bitlen p) = 0" by simp
    with b assms show False by simp
  qed
  have "(of_int (2 ^ nat (bitlen p - 1)) :: rat) \<le> of_int p"
    using a unfolding of_int_le_iff .
  then show "(2::rat) powi (bitlen p - 1) \<le> of_int p"
    using pos by (simp add: power_int_def)
  have "(of_int p :: rat) < of_int (2 ^ nat (bitlen p))"
    using b unfolding of_int_less_iff .
  then show "(of_int p :: rat) < 2 powi bitlen p"
    using pos by (simp add: power_int_def)
qed

lemma ilog2_bounds:
  assumes "0 < x"
  shows "2 powi ilog2 x \<le> x" "x < 2 powi (ilog2 x + 1)"
proof -
  obtain p q where pq: "quotient_of x = (p, q)" by (cases "quotient_of x")
  have q: "0 < q" using pq by (rule quotient_of_denom_pos)
  have x: "x = of_int p / of_int q" using pq by (rule quotient_of_div)
  have p: "0 < p" using assms q unfolding x by (simp add: zero_less_divide_iff)
  define P :: rat where "P = of_int p"
  define Q :: rat where "Q = of_int q"
  define bp where "bp = bitlen p"
  define bq where "bq = bitlen q"
  define e0 where "e0 = bp - bq"
  have P: "2 powi (bp - 1) \<le> P" "P < 2 powi bp"
    unfolding P_def bp_def using bitlen_rat_bounds [OF p] by simp_all
  have Q: "2 powi (bq - 1) \<le> Q" "Q < 2 powi bq" "0 < Q"
    unfolding Q_def bq_def using bitlen_rat_bounds [OF q] q by simp_all
  have xPQ: "x = P / Q" unfolding x P_def Q_def ..
  have "(2::rat) powi bp = 2 powi (e0 + 1) * 2 powi (bq - 1)"
    unfolding e0_def by (subst power_int_add [symmetric]) simp_all
  also have "\<dots> \<le> 2 powi (e0 + 1) * Q"
    using Q(1) by (intro mult_left_mono) simp_all
  finally have "P < 2 powi (e0 + 1) * Q" using P(2) by simp
  then have up: "x < 2 powi (e0 + 1)"
    unfolding xPQ using Q(3) by (simp add: pos_divide_less_eq)
  have "2 powi (e0 - 1) * Q < 2 powi (e0 - 1) * 2 powi bq"
    using Q(2) by (intro mult_strict_left_mono) simp_all
  also have "\<dots> = 2 powi (bp - 1)"
    unfolding e0_def by (subst power_int_add [symmetric]) simp_all
  finally have "2 powi (e0 - 1) * Q < P" using P(1) by simp
  then have lo: "2 powi (e0 - 1) < x"
    unfolding xPQ using Q(3) by (simp add: pos_less_divide_eq)
  have il: "ilog2 x = (if 2 powi e0 \<le> x then e0 else e0 - 1)"
    by (simp add: ilog2_def Let_def pq e0_def bp_def bq_def)
  show "2 powi ilog2 x \<le> x" using lo unfolding il by auto
  show "x < 2 powi (ilog2 x + 1)" using up unfolding il by auto
qed

lemma ilog2_less:
  assumes "0 < x" "x < 2 powi E" shows "ilog2 x < E"
proof (rule ccontr)
  assume "\<not> ilog2 x < E"
  then have "E \<le> ilog2 x" by simp
  then have "(2::rat) powi E \<le> 2 powi ilog2 x" by (rule power_int_increasing) simp
  with ilog2_bounds(1) [OF assms(1)] assms(2) show False by simp
qed

lemma ilog2_ge:
  assumes "0 < x" "2 powi E \<le> x" shows "E \<le> ilog2 x"
proof (rule ccontr)
  assume "\<not> E \<le> ilog2 x"
  then have "ilog2 x + 1 \<le> E" by simp
  then have "(2::rat) powi (ilog2 x + 1) \<le> 2 powi E" by (rule power_int_increasing) simp
  with ilog2_bounds(2) [OF assms(1)] assms(2) show False by simp
qed

lemma ilog2_eqI:
  assumes "2 powi e \<le> x" "x < 2 powi (e + 1)" shows "ilog2 x = e"
proof -
  have "(0::rat) < 2 powi e" by simp
  with assms(1) have x: "0 < x" by linarith
  have "ilog2 x < e + 1" using x assms(2) by (rule ilog2_less)
  moreover have "e \<le> ilog2 x" using x assms(1) by (rule ilog2_ge)
  ultimately show ?thesis by simp
qed

subsection \<open>Rounding to the nearest double\<close>

lemma double_grid_pos: "0 < double_grid x"
  by (simp add: double_grid_def)

lemma round_double_pos:
  "0 < x \<Longrightarrow> round_double x = of_int (round_half_even (x / double_grid x)) * double_grid x"
  by (simp add: round_double_def)

lemma round_double_0: "round_double 0 = 0"
  by (simp add: round_double_def)

lemma round_double_minus: "round_double (- x) = - round_double x"
  by (simp add: round_double_def)

lemma round_double_nonneg:
  assumes "0 \<le> x" shows "0 \<le> round_double x"
proof (cases "x = 0")
  case True then show ?thesis by (simp add: round_double_0)
next
  case False
  with assms have x: "0 < x" by simp
  have "0 \<le> x / double_grid x" using x double_grid_pos [of x] by simp
  then have "(of_int 0 :: rat) \<le> x / double_grid x" by simp
  then have "0 \<le> round_half_even (x / double_grid x)" by (rule round_half_even_ge)
  then show ?thesis
    unfolding round_double_pos [OF x] using double_grid_pos [of x] by simp
qed


lemma round_double_le_grid:
  assumes "0 < x" "x \<le> of_int N * double_grid x"
  shows "round_double x \<le> of_int N * double_grid x"
proof -
  have "x / double_grid x \<le> of_int N"
    using assms(2) double_grid_pos [of x] by (simp add: pos_divide_le_eq)
  then have "round_half_even (x / double_grid x) \<le> N" by (rule round_half_even_le)
  then have "(of_int (round_half_even (x / double_grid x)) :: rat) \<le> of_int N"
    unfolding of_int_le_iff .
  then show ?thesis
    unfolding round_double_pos [OF assms(1)] using double_grid_pos [of x]
    by (intro mult_right_mono) simp_all
qed

lemma round_double_ge_grid:
  assumes "0 < x" "of_int N * double_grid x \<le> x"
  shows "of_int N * double_grid x \<le> round_double x"
proof -
  have "of_int N \<le> x / double_grid x"
    using assms(2) double_grid_pos [of x] by (simp add: pos_le_divide_eq)
  then have "N \<le> round_half_even (x / double_grid x)" by (rule round_half_even_ge)
  then have "(of_int N :: rat) \<le> of_int (round_half_even (x / double_grid x))"
    unfolding of_int_le_iff .
  then show ?thesis
    unfolding round_double_pos [OF assms(1)] using double_grid_pos [of x]
    by (intro mult_right_mono) simp_all
qed


text \<open>A value below a bound that is itself a double is rounded to at most that bound.\<close>

lemma round_double_le_double:
  assumes x: "0 < x" and le: "x \<le> of_int M * 2 powi j" and lt: "x < 2 powi E"
    and j: "max (E - 1) (- 1022) - 52 \<le> j"
  shows "round_double x \<le> of_int M * 2 powi j"
proof -
  define k where "k = max (ilog2 x) (- 1022) - 52"
  have g: "double_grid x = 2 powi k" by (simp add: double_grid_def k_def)
  have "ilog2 x < E" using x lt by (rule ilog2_less)
  then have kj: "k \<le> j" using j unfolding k_def by simp
  have "(2::rat) powi j = 2 powi (int (nat (j - k)) + k)" using kj by simp
  also have "\<dots> = 2 powi int (nat (j - k)) * 2 powi k"
    by (rule power_int_add) simp
  also have "\<dots> = 2 ^ nat (j - k) * 2 powi k" by (simp only: power_int_of_nat)
  finally have pj: "(2::rat) powi j = 2 ^ nat (j - k) * 2 powi k" .
  have eq: "of_int M * 2 powi j = (of_int (M * 2 ^ nat (j - k)) :: rat) * double_grid x"
    unfolding g pj by simp
  show ?thesis using round_double_le_grid [OF x, of "M * 2 ^ nat (j - k)"] le
    unfolding eq by simp
qed

lemma round_double_ge_power:
  assumes x: "0 < x" and ge: "2 powi E \<le> x" and E: "- 1022 \<le> E"
  shows "2 powi E \<le> round_double x"
proof -
  define e where "e = ilog2 x"
  have Ee: "E \<le> e" unfolding e_def using x ge by (rule ilog2_ge)
  have g: "double_grid x = 2 powi (e - 52)"
  proof -
    have "max e (- 1022) = e" using Ee E by simp
    then show ?thesis by (simp only: double_grid_def e_def)
  qed
  have "(2::rat) powi e = 2 powi (52 + (e - 52))" by simp
  also have "\<dots> = 2 powi 52 * 2 powi (e - 52)" by (rule power_int_add) simp
  finally have pe: "(2::rat) powi e = of_int (2 ^ 52) * double_grid x"
    unfolding g by simp
  have "2 powi e \<le> x" unfolding e_def using x by (rule ilog2_bounds)
  then have "of_int (2 ^ 52) * double_grid x \<le> round_double x"
    unfolding pe by (rule round_double_ge_grid [OF x])
  then have "2 powi e \<le> round_double x" unfolding pe .
  moreover have "(2::rat) powi E \<le> 2 powi e" using Ee by (rule power_int_increasing) simp
  ultimately show ?thesis by linarith
qed



text \<open>The shape in which a rounding is computed by hand: the binade and the integer
  multiple of the grid are given, and checked by arithmetic.\<close>

lemma round_double_eqI:
  assumes lo: "2 powi e \<le> x" and hi: "x < 2 powi (e + 1)" and e: "- 1022 \<le> e"
    and m: "\<bar>x / 2 powi (e - 52) - of_int m\<bar> < 1 / 2"
  shows "round_double x = of_int m * 2 powi (e - 52)"
proof -
  have "(0::rat) < 2 powi e" by simp
  with lo have x: "0 < x" by linarith
  have il: "ilog2 x = e" using lo hi by (rule ilog2_eqI)
  have g: "double_grid x = 2 powi (e - 52)" using e by (simp add: double_grid_def il max_def)
  have "round_half_even (x / 2 powi (e - 52)) = m" using m by (rule round_half_even_eqI)
  then show ?thesis unfolding round_double_pos [OF x] g by simp
qed

subsection \<open>Division, product and rounding of the progress\<close>

lemma round_double_abs_le:
  assumes "\<bar>x\<bar> \<le> 2 ^ 1000" shows "\<bar>round_double x\<bar> \<le> 2 ^ 1000"
proof -
  have pos: "round_double y \<le> 2 ^ 1000" if y: "0 < y" "y \<le> 2 ^ 1000" for y :: rat
  proof -
    have a: "y \<le> of_int 1 * 2 powi 1000" using y(2) by simp
    have "(2::rat) ^ 1000 < 2 ^ 1001" by (rule power_strict_increasing) simp_all
    then have b: "y < 2 powi 1001" using y(2) by simp
    have "round_double y \<le> of_int 1 * 2 powi 1000"
      using y(1) a b by (rule round_double_le_double) simp
    then show ?thesis by simp
  qed
  consider "x = 0" | "0 < x" | "x < 0" by linarith
  then show ?thesis
  proof cases
    case 1 then show ?thesis by (simp add: round_double_0)
  next
    case 2
    then have "round_double x \<le> 2 ^ 1000" using assms by (intro pos) simp_all
    moreover have "0 \<le> round_double x" using 2 by (intro round_double_nonneg) simp
    ultimately show ?thesis by simp
  next
    case 3
    then have "round_double (- x) \<le> 2 ^ 1000" using assms by (intro pos) simp_all
    moreover have "0 \<le> round_double (- x)" using 3 by (intro round_double_nonneg) simp
    ultimately show ?thesis by (simp add: round_double_minus)
  qed
qed

lemma limit_gt: "(2::rat) ^ 1000 < double_limit"
  unfolding double_limit_def by (rule power_strict_increasing) simp_all

lemma int_true_div_no_overflow:
  assumes n: "0 < n" and a: "\<bar>a\<bar> \<le> 2 ^ 1000"
  shows "int_true_div a n = Inr (round_double (of_int a / of_int n))"
proof -
  have "(of_int \<bar>a\<bar> :: rat) \<le> of_int (2 ^ 1000)" using a unfolding of_int_le_iff .
  then have A: "\<bar>of_int a :: rat\<bar> \<le> 2 ^ 1000" by simp
  have N: "(1::rat) \<le> of_int n" using n by simp
  have "\<bar>(of_int a :: rat) / of_int n\<bar> = \<bar>of_int a\<bar> / of_int n" using n by simp
  also have "\<dots> \<le> \<bar>of_int a\<bar> / 1" using N by (intro divide_left_mono) simp_all
  finally have "\<bar>(of_int a :: rat) / of_int n\<bar> \<le> 2 ^ 1000" using A by simp
  then have "\<bar>round_double (of_int a / of_int n)\<bar> \<le> 2 ^ 1000" by (rule round_double_abs_le)
  with limit_gt have "\<not> double_limit \<le> \<bar>round_double (of_int a / of_int n)\<bar>" by linarith
  then show ?thesis using n by (simp add: int_true_div_def Let_def)
qed



lemma capped_ratio_no_overflow:
  assumes "0 < n" "\<bar>a\<bar> \<le> 2 ^ 1000"
  shows "capped_ratio a n = Inr (min_one (round_double (of_int a / of_int n)))"
  by (simp add: capped_ratio_def int_true_div_no_overflow [OF assms])











subsection \<open>The loop of the bond report\<close>

lemma progress_of_bonds [simp]: "progress_of cond (a\<lparr> bonds := bs \<rparr>) = progress_of cond a"
  by (simp add: progress_of_def crisis_count_def)

lemma progress_of_with_status [simp]: "progress_of cond (with_status b a) = progress_of cond a"
  by (simp add: with_status_def)

lemma bond_unlocked_with_status [simp]:
  "bond_unlocked b' (with_status b a) = bond_unlocked b' a"
  by (simp add: with_status_def bond_unlocked_def map_of_dict_set key_absent
      BondStatus_create_def)

lemma keys_with_status:
  "set (dict_keys (bonds (with_status b a))) = insert b (set (dict_keys (bonds a)))"
  by (auto simp: with_status_def dict_keys_def dict_set_def AList.dom_update)

lemma bond_info_step_eq:
  "bond_info_step bd (a, acc) =
     (case progress_of (snd bd) a of
        Inl e \<Rightarrow> (Some e, with_status (fst bd) a, acc)
      | Inr f \<Rightarrow> (None, with_status (fst bd) a, acc @ [bond_row a (fst bd, f)]))"
proof -
  have u: "(case map_of (bonds (with_status (fst bd) a)) (fst bd) of
              None \<Rightarrow> False | Some status \<Rightarrow> unlocked status) = bond_unlocked (fst bd) a"
    using bond_unlocked_with_status [of "fst bd" "fst bd" a] by (simp add: bond_unlocked_def)
  show ?thesis
    unfolding bond_info_step_def Let_def fst_conv snd_conv with_status_def [symmetric] u
    by (simp add: bond_row_def percentage_def split: sum.splits)
qed

lemma bond_info_loop_report:
  "case collect (map (\<lambda>bd. progress_of (snd bd) a) bds) of
     Inl e \<Rightarrow> fst (bond_info_loop bds (a, acc)) = Some e
   | Inr fs \<Rightarrow> fst (bond_info_loop bds (a, acc)) = None
       \<and> snd (snd (bond_info_loop bds (a, acc))) = acc @ map (bond_row a) (zip (map fst bds) fs)"
proof (induction bds arbitrary: a acc)
  case Nil
  show ?case by simp
next
  case (Cons bd bds)
  show ?case
  proof (cases "progress_of (snd bd) a")
    case (Inl e)
    then show ?thesis by (simp add: bond_info_step_eq)
  next
    case (Inr f)
    have row: "bond_row (with_status (fst bd) a) = bond_row a"
      by (rule ext) (simp add: bond_row_def)
    from Cons.IH [of "with_status (fst bd) a" "acc @ [bond_row a (fst bd, f)]"]
    show ?thesis
      unfolding progress_of_with_status row
      by (simp add: bond_info_step_eq Inr split: sum.splits)
  qed
qed

lemma bond_info_loop_keys:
  "set (dict_keys (bonds a)) \<subseteq> set (dict_keys (bonds (fst (snd (bond_info_loop bds (a, acc))))))"
  "set (dict_keys (bonds (fst (snd (bond_info_loop bds (a, acc))))))
     \<subseteq> set (map fst bds) \<union> set (dict_keys (bonds a))"
  "fst (bond_info_loop bds (a, acc)) = None \<Longrightarrow>
     set (dict_keys (bonds (fst (snd (bond_info_loop bds (a, acc))))))
       = set (map fst bds) \<union> set (dict_keys (bonds a))"
proof (induction bds arbitrary: a acc)
  case Nil
  { case 1 show ?case by simp }
  { case 2 show ?case by simp }
  { case 3 show ?case by simp }
next
  case (Cons bd bds)
  { case 1
    show ?case
    proof (cases "progress_of (snd bd) a")
      case (Inl e)
      then show ?thesis by (auto simp: bond_info_step_eq keys_with_status)
    next
      case (Inr f)
      from Cons.IH(1) [of "with_status (fst bd) a" "acc @ [bond_row a (fst bd, f)]"]
      show ?thesis by (auto simp: bond_info_step_eq Inr keys_with_status)
    qed }
  { case 2
    show ?case
    proof (cases "progress_of (snd bd) a")
      case (Inl e)
      then show ?thesis by (auto simp: bond_info_step_eq keys_with_status)
    next
      case (Inr f)
      from Cons.IH(2) [of "with_status (fst bd) a" "acc @ [bond_row a (fst bd, f)]"]
      show ?thesis by (auto simp: bond_info_step_eq Inr keys_with_status)
    qed }
  { case 3
    show ?case
    proof (cases "progress_of (snd bd) a")
      case (Inl e)
      with 3 show ?thesis by (simp add: bond_info_step_eq)
    next
      case (Inr f)
      from 3 have "fst (bond_info_loop bds (with_status (fst bd) a, acc @ [bond_row a (fst bd, f)])) = None"
        by (simp add: bond_info_step_eq Inr)
      from Cons.IH(3) [OF this]
      show ?thesis by (auto simp: bond_info_step_eq Inr keys_with_status)
    qed }
qed

lemma bond_info_loop_unlocked:
  "bond_unlocked b (fst (snd (bond_info_loop bds (a, acc)))) = bond_unlocked b a"
proof (induction bds arbitrary: a acc)
  case Nil
  show ?case by simp
next
  case (Cons bd bds)
  show ?case
  proof (cases "progress_of (snd bd) a")
    case (Inl e)
    then show ?thesis by (simp add: bond_info_step_eq)
  next
    case (Inr f)
    from Cons.IH [of "with_status (fst bd) a" "acc @ [bond_row a (fst bd, f)]"]
    show ?thesis by (simp add: bond_info_step_eq Inr)
  qed
qed

subsection \<open>The catalog against the table of bonds\<close>


lemma catalog_progress:
  "map (\<lambda>bd. progress_of (snd bd) a) BOND_DEFINITIONS
     = map (\<lambda>row. rule_progress (snd row) a) bond_table"
  by (simp add: BOND_DEFINITIONS_def bond_table_def progress_of_def rule_progress_def)

lemma catalog_ids: "map fst BOND_DEFINITIONS = map fst bond_table"
  by (simp add: BOND_DEFINITIONS_def bond_table_def)

lemma get_bond_info_report:
  "fst (get_bond_info cfg t uid st) = bond_report (loaded cfg t uid st)"
proof -
  define a where "a = loaded cfg t uid st"
  define r where "r = bond_info_loop BOND_DEFINITIONS (a, [])"
  have g: "fst (get_bond_info cfg t uid st) =
      (case fst r of Some e \<Rightarrow> Inl e
       | None \<Rightarrow> Inr \<lparr> total_bonds = length BOND_DEFINITIONS,
                        unlocked_count = length (filter info_unlocked (snd (snd r))),
                        bonds_data = snd (snd r) \<rparr>)"
    by (simp add: get_bond_info_def Let_def r_def a_def loaded_def cong: option.case_cong)
  have len: "length BOND_DEFINITIONS = 6" by (simp add: BOND_DEFINITIONS_def)
  from bond_info_loop_report [where a = a and bds = BOND_DEFINITIONS and acc = "[]"]
  show ?thesis
    unfolding g a_def [symmetric] bond_report_def catalog_progress catalog_ids r_def [symmetric] len
    by (simp add: Let_def split: sum.splits)
qed

subsection \<open>Evaluations\<close>




lemma round_double_100: "round_double 100 = 100"
  using round_double_eqI [of 6 100 7036874417766400]
  by (simp add: power_int_minus)

lemma round_double_50: "round_double 50 = 50"
  using round_double_eqI [of 5 50 7036874417766400]
  by (simp add: power_int_minus)

lemma round_double_half: "round_double (1 / 2) = 1 / 2"
  using round_double_eqI [of "- 1" "1 / 2" 4503599627370496]
  by (simp add: power_int_minus)


lemma round_half_even_of_int [simp]: "round_half_even (of_int k) = k"
  by (simp add: round_half_even_def Let_def)

lemma round_half_even_numeral [simp]: "round_half_even (numeral k) = numeral k"
  using round_half_even_of_int [of "numeral k"] by simp

lemma round_half_even_neg_numeral [simp]: "round_half_even (- numeral k) = - numeral k"
  using round_half_even_of_int [of "- numeral k"] by simp

lemma round_half_even_0 [simp]: "round_half_even 0 = 0"
  using round_half_even_of_int [of 0] by simp

lemma percentage_1: "percentage 1 = Finite 100"
  by (simp add: percentage_def float_mul_def py_round1_def round_double_100 double_limit_def)

lemma percentage_0: "percentage 0 = Finite 0"
  by (simp add: percentage_def float_mul_def py_round1_def round_double_0 double_limit_def)


lemma percentage_minus_half: "percentage (- (1 / 2)) = Finite (- 50)"
  using round_double_minus [of 50]
  by (simp add: percentage_def float_mul_def py_round1_def round_double_50 double_limit_def)

subsection \<open>Progress against the table\<close>






lemma capped_ratio_0:
  assumes "0 < n" shows "capped_ratio 0 n = Inr 0"
  using capped_ratio_no_overflow [OF assms, of 0] by (simp add: round_double_0 min_one_def)

lemma int_true_div_overflow:
  assumes "0 < n" "2 ^ 1024 * n \<le> a"
  shows "int_true_div a n = Inl OverflowError"
proof -
  have "(of_int (2 ^ 1024 * n) :: rat) \<le> of_int a" using assms(2) unfolding of_int_le_iff .
  then have "(2 ^ 1024 :: rat) * of_int n \<le> of_int a" by simp
  then have "(2 ^ 1024 :: rat) \<le> of_int a / of_int n" using assms(1) by (simp add: pos_le_divide_eq)
  then have x: "2 powi 1024 \<le> (of_int a / of_int n :: rat)" by simp
  have "(0::rat) < 2 powi 1024" by simp
  with x have "0 < (of_int a / of_int n :: rat)" by linarith
  then have "2 powi 1024 \<le> round_double (of_int a / of_int n)"
    using x by (rule round_double_ge_power) simp
  then have "double_limit \<le> \<bar>round_double (of_int a / of_int n)\<bar>"
    by (simp add: double_limit_def)
  then show ?thesis using assms(1) by (simp add: int_true_div_def Let_def)
qed


subsection \<open>The profiles of the examples\<close>





lemma new_user_loaded:
  assumes "DEFAULT_AFFECTION cfg = 0"
  shows "affection_value (loaded cfg t uid None) = 0"
    "total_positive (loaded cfg t uid None) = 0"
    "crisis_count (loaded cfg t uid None) = 0"
    "\<not> bond_unlocked b (loaded cfg t uid None)"
  using assms
  by (simp_all add: loaded_def get_social_data_def SocialData_create_def UserAffection_create_def
      crisis_count_def bond_unlocked_def)

lemma new_user_report:
  assumes "DEFAULT_AFFECTION cfg = 0"
  shows "fst (get_bond_info cfg t uid None) =
     Inr \<lparr> total_bonds = 6, unlocked_count = 0,
           bonds_data =
             [ \<lparr> info_bond_id = ''first_meet'', info_unlocked = False, info_progress = Finite 100 \<rparr>,
               \<lparr> info_bond_id = ''shared_laugh'', info_unlocked = False, info_progress = Finite 0 \<rparr>,
               \<lparr> info_bond_id = ''deep_conversation'', info_unlocked = False,
                 info_progress = Finite 0 \<rparr>,
               \<lparr> info_bond_id = ''trusted_confidant'', info_unlocked = False,
                 info_progress = Finite 0 \<rparr>,
               \<lparr> info_bond_id = ''storm_together'', info_unlocked = False,
                 info_progress = Finite 0 \<rparr>,
               \<lparr> info_bond_id = ''heart_to_heart'', info_unlocked = False,
                 info_progress = Finite 0 \<rparr> ] \<rparr>"
  by (simp add: get_bond_info_report bond_report_def bond_table_def rule_progress_def
      new_user_loaded [OF assms] capped_ratio_0 bond_row_def percentage_1 percentage_0)

lemma st_minus40_loaded:
  "affection_value (loaded default_config 0 ''u'' st_minus40) = - 40"
  "total_positive (loaded default_config 0 ''u'' st_minus40) = 0"
  "crisis_count (loaded default_config 0 ''u'' st_minus40) = 0"
  "bond_unlocked ''first_meet'' (loaded default_config 0 ''u'' st_minus40)"
  "\<not> bond_unlocked ''shared_laugh'' (loaded default_config 0 ''u'' st_minus40)"
  "\<not> bond_unlocked ''deep_conversation'' (loaded default_config 0 ''u'' st_minus40)"
  "\<not> bond_unlocked ''trusted_confidant'' (loaded default_config 0 ''u'' st_minus40)"
  "\<not> bond_unlocked ''storm_together'' (loaded default_config 0 ''u'' st_minus40)"
  "\<not> bond_unlocked ''heart_to_heart'' (loaded default_config 0 ''u'' st_minus40)"
  by code_simp+

lemma capped_ratio_minus40_80: "capped_ratio (- 40) 80 = Inr (- (1 / 2))"
proof -
  have "capped_ratio (- 40) 80 = Inr (min_one (round_double (of_int (- 40) / of_int 80)))"
    by (rule capped_ratio_no_overflow) simp_all
  then show ?thesis
    using round_double_minus [of "1 / 2"] by (simp add: round_double_half min_one_def)
qed

subsection \<open>The bond report\<close>




text \<open>The fraction has no lower cap: after two events of -20 the affection value is -40
  and \<^verbatim>\<open>heart_to_heart\<close> is reported with progress -50.\<close>

lemma heart_to_heart_progress_negative:
  "fst (get_bond_info default_config 0 ''u'' st_minus40) =
     Inr \<lparr> total_bonds = 6, unlocked_count = 1,
           bonds_data =
             [ \<lparr> info_bond_id = ''first_meet'', info_unlocked = True, info_progress = Finite 100 \<rparr>,
               \<lparr> info_bond_id = ''shared_laugh'', info_unlocked = False, info_progress = Finite 0 \<rparr>,
               \<lparr> info_bond_id = ''deep_conversation'', info_unlocked = False,
                 info_progress = Finite 0 \<rparr>,
               \<lparr> info_bond_id = ''trusted_confidant'', info_unlocked = False,
                 info_progress = Finite 0 \<rparr>,
               \<lparr> info_bond_id = ''storm_together'', info_unlocked = False,
                 info_progress = Finite 0 \<rparr>,
               \<lparr> info_bond_id = ''heart_to_heart'', info_unlocked = False,
                 info_progress = Finite (- 50) \<rparr> ] \<rparr>"
  by (simp add: get_bond_info_report bond_report_def bond_table_def rule_progress_def
      st_minus40_loaded capped_ratio_0 capped_ratio_minus40_80 bond_row_def percentage_1
      percentage_0 percentage_minus_half)

subsection \<open>The bond system switched off\<close>

lemma record_affection_event_disabled:
  assumes "\<not> ENABLE_BOND_SYSTEM cfg"
  shows "unlocked_bonds (fst (record_affection_event cfg clk uid amount etype descr ctx st)) = []"
    and "bonds (loaded cfg t uid (snd (record_affection_event cfg clk uid amount etype descr ctx st)))
           = bonds (loaded cfg t uid st)"
proof -
  show "unlocked_bonds (fst (record_affection_event cfg clk uid amount etype descr ctx st)) = []"
    using assms by (simp add: record_affection_event_def Let_def)
  have "bonds (loaded cfg t uid (snd (record_affection_event cfg clk uid amount etype descr ctx st)))
           = bonds (loaded cfg (clk_profile clk) uid st)"
    unfolding loaded_record_affection_event using assms by (simp add: Let_def add_event_bonds)
  then show "bonds (loaded cfg t uid (snd (record_affection_event cfg clk uid amount etype descr ctx st)))
           = bonds (loaded cfg t uid st)"
    using loaded_fresh_indep(2)[of cfg "clk_profile clk" uid st t] by simp
qed

lemma op_kinds3:
  obtains (event) clk amount etype descr ctx where "op = RecordAffectionEvent clk amount etype descr ctx"
  | (memory) env chat_key mtype c imp tgs where "op = RecordMemory env chat_key mtype c imp tgs"
  | (other_op) "\<forall>clk amount etype descr ctx. op \<noteq> RecordAffectionEvent clk amount etype descr ctx"
      "\<forall>env chat_key mtype c imp tgs. op \<noteq> RecordMemory env chat_key mtype c imp tgs"
  by (cases op) simp_all

lemma profile_after_read_only:
  assumes "\<forall>t0. op \<noteq> GetBondInfo t0"
    and "\<forall>clk amount etype descr ctx. op \<noteq> RecordAffectionEvent clk amount etype descr ctx"
    and "\<forall>env chat_key mtype c imp tgs. op \<noteq> RecordMemory env chat_key mtype c imp tgs"
  shows "profile_after cfg uid op st = get_social_data cfg (load_time op) uid st"
  using assms by (cases op) (simp_all add: profile_after_def)

lemma get_bond_info_unlocked:
  "bond_unlocked b (affection (fst (snd (get_bond_info cfg t uid st)))) = bond_unlocked b (loaded cfg t uid st)"
  by (simp add: get_bond_info_def Let_def bond_info_loop_unlocked loaded_def)

lemma get_bond_info_keys:
  "set (dict_keys (bonds (loaded cfg t uid st)))
     \<subseteq> set (dict_keys (bonds (affection (fst (snd (get_bond_info cfg t uid st))))))"
  "set (dict_keys (bonds (affection (fst (snd (get_bond_info cfg t uid st))))))
     \<subseteq> set (map fst BOND_DEFINITIONS) \<union> set (dict_keys (bonds (loaded cfg t uid st)))"
  "fst (get_bond_info cfg t uid st) = Inr r \<Longrightarrow>
   set (dict_keys (bonds (affection (fst (snd (get_bond_info cfg t uid st))))))
     = set (map fst BOND_DEFINITIONS) \<union> set (dict_keys (bonds (loaded cfg t uid st)))"
proof -
  define a where "a = loaded cfg t uid st"
  define l where "l = bond_info_loop BOND_DEFINITIONS (a, [])"
  have p: "affection (fst (snd (get_bond_info cfg t uid st))) = fst (snd l)"
    by (simp add: get_bond_info_def Let_def l_def a_def loaded_def)
  show "set (dict_keys (bonds (loaded cfg t uid st)))
     \<subseteq> set (dict_keys (bonds (affection (fst (snd (get_bond_info cfg t uid st))))))"
    unfolding p l_def a_def [symmetric] by (rule bond_info_loop_keys(1))
  show "set (dict_keys (bonds (affection (fst (snd (get_bond_info cfg t uid st))))))
     \<subseteq> set (map fst BOND_DEFINITIONS) \<union> set (dict_keys (bonds (loaded cfg t uid st)))"
    unfolding p l_def a_def [symmetric] by (rule bond_info_loop_keys(2))
  assume "fst (get_bond_info cfg t uid st) = Inr r"
  then have "fst l = None"
    by (simp add: get_bond_info_def Let_def l_def a_def loaded_def split: option.splits)
  then show "set (dict_keys (bonds (affection (fst (snd (get_bond_info cfg t uid st))))))
     = set (map fst BOND_DEFINITIONS) \<union> set (dict_keys (bonds (loaded cfg t uid st)))"
    unfolding p l_def a_def [symmetric] by (rule bond_info_loop_keys(3))
qed

text \<open>A stored \<^verbatim>\<open>total_positive\<close> of 5 * 2^1024: the division of \<^verbatim>\<open>shared_laugh\<close> raises
  \<^verbatim>\<open>OverflowError\<close>, and the loop has created the statuses of the first two bonds only.\<close>

lemma get_bond_info_overflow_stops_creation:
  "fst (get_bond_info cfg 0 ''u'' st_overflow) = Inl OverflowError
   \<and> dict_keys (bonds (affection (fst (snd (get_bond_info cfg 0 ''u'' st_overflow)))))
       = [''first_meet'', ''shared_laugh'']"
proof -
  define big :: int where "big = 5 * 2 ^ 1024"
  have d: "int_true_div big 5 = Inl OverflowError"
    by (rule int_true_div_overflow) (simp_all add: big_def)
  have d': "capped_ratio big 5 = Inl OverflowError"
    by (simp add: capped_ratio_def d)
  show ?thesis
    unfolding st_overflow_def big_def [symmetric]
    by (simp add: get_bond_info_def get_social_data_def Let_def BOND_DEFINITIONS_def
        bond_info_step_eq progress_of_def d' UserAffection_create_def with_status_def
        dict_keys_def dict_set_def)
qed

text \<open>C8 (as amended). With \<^verbatim>\<open>ENABLE_BOND_SYSTEM\<close> false no public operation changes the
  bonds map of the stored profile, and every operation other than \<^verbatim>\<open>get_bond_info\<close> leaves
  the bonds map of the profile it loaded as it is; \<^verbatim>\<open>record_affection_event\<close> evaluates no
  bond and reports none as newly unlocked. \<^verbatim>\<open>get_bond_info\<close> does not read the flag: in
  the profile it loaded it keeps every status, creates statuses for bonds of the catalog
  only, changes no unlocked flag, and does not save; when it returns its report, every bond
  of the catalog that had no status has one.\<close>

theorem bonds_untouched_when_disabled:
  assumes "\<not> ENABLE_BOND_SYSTEM cfg"
  shows
    "bonds (loaded cfg t uid (run_op cfg uid op st)) = bonds (loaded cfg t uid st)
     \<and> ((\<forall>t0. op \<noteq> GetBondInfo t0)
          \<longrightarrow> bonds (affection (profile_after cfg uid op st)) = bonds (loaded cfg t uid st))
     \<and> unlocked_bonds (fst (record_affection_event cfg clk uid amount etype descr ctx st)) = []
     \<and> set (dict_keys (bonds (loaded cfg t uid st)))
         \<subseteq> set (dict_keys (bonds (affection (profile_after cfg uid (GetBondInfo t0) st))))
     \<and> set (dict_keys (bonds (affection (profile_after cfg uid (GetBondInfo t0) st))))
         \<subseteq> set (map fst BOND_DEFINITIONS) \<union> set (dict_keys (bonds (loaded cfg t uid st)))
     \<and> ((\<exists>r. fst (get_bond_info cfg t0 uid st) = Inr r)
          \<longrightarrow> set (dict_keys (bonds (affection (profile_after cfg uid (GetBondInfo t0) st))))
              = set (map fst BOND_DEFINITIONS) \<union> set (dict_keys (bonds (loaded cfg t uid st))))
     \<and> (\<forall>b. bond_unlocked b (affection (profile_after cfg uid (GetBondInfo t0) st))
             = bond_unlocked b (loaded cfg t uid st))"
proof -
  have stored: "bonds (loaded cfg t uid (run_op cfg uid op st)) = bonds (loaded cfg t uid st)"
  proof (cases op rule: op_kinds)
    case (event clk amount etype descr ctx)
    show ?thesis
      unfolding event run_op.simps by (rule record_affection_event_disabled(2)[OF assms])
  next
    case (memory env chat_key mtype c imp tgs)
    show ?thesis
      unfolding memory run_op.simps by (rule loaded_record_user_memory(2))
  next
    case read_only
    show ?thesis unfolding read_only by (rule refl)
  qed
  have in_memory: "bonds (affection (profile_after cfg uid op st)) = bonds (loaded cfg t uid st)"
    if other: "\<forall>t0. op \<noteq> GetBondInfo t0"
  proof (cases op rule: op_kinds3)
    case (event clk amount etype descr ctx)
    have "bonds (loaded cfg (clk_profile clk) uid (run_op cfg uid op st)) = bonds (loaded cfg t uid st)"
      unfolding event run_op.simps
      using record_affection_event_disabled(2)[OF assms, of "clk_profile clk" uid clk amount etype descr ctx st]
        loaded_fresh_indep(2)[of cfg "clk_profile clk" uid st t] by simp
    then show ?thesis
      unfolding event by (simp add: profile_after_def loaded_def)
  next
    case (memory env chat_key mtype c imp tgs)
    have "bonds (loaded cfg (env_profile env) uid (run_op cfg uid op st)) = bonds (loaded cfg t uid st)"
      unfolding memory run_op.simps loaded_record_user_memory(2)
      by (rule loaded_fresh_indep(2))
    then show ?thesis
      unfolding memory by (simp add: profile_after_def loaded_def)
  next
    case other_op
    have "profile_after cfg uid op st = get_social_data cfg (load_time op) uid st"
      using other other_op by (intro profile_after_read_only)
    then show ?thesis
      using loaded_fresh_indep(2)[of cfg "load_time op" uid st t] by (simp add: loaded_def)
  qed
  have p: "affection (profile_after cfg uid (GetBondInfo t0) st)
             = affection (fst (snd (get_bond_info cfg t0 uid st)))"
    by (simp add: profile_after_def)
  have old: "bonds (loaded cfg t0 uid st) = bonds (loaded cfg t uid st)"
    by (rule loaded_fresh_indep(2))
  have keeps: "set (dict_keys (bonds (loaded cfg t uid st)))
         \<subseteq> set (dict_keys (bonds (affection (profile_after cfg uid (GetBondInfo t0) st))))"
    using get_bond_info_keys(1)[of cfg t0 uid st] unfolding p old .
  have within: "set (dict_keys (bonds (affection (profile_after cfg uid (GetBondInfo t0) st))))
         \<subseteq> set (map fst BOND_DEFINITIONS) \<union> set (dict_keys (bonds (loaded cfg t uid st)))"
    using get_bond_info_keys(2)[of cfg t0 uid st] unfolding p old .
  have keys: "set (dict_keys (bonds (affection (profile_after cfg uid (GetBondInfo t0) st))))
         = set (map fst BOND_DEFINITIONS) \<union> set (dict_keys (bonds (loaded cfg t uid st)))"
    if "\<exists>r. fst (get_bond_info cfg t0 uid st) = Inr r"
  proof -
    from that obtain r where "fst (get_bond_info cfg t0 uid st) = Inr r" ..
    from get_bond_info_keys(3)[OF this] show ?thesis unfolding p old .
  qed
  have flags: "bond_unlocked b (affection (profile_after cfg uid (GetBondInfo t0) st))
             = bond_unlocked b (loaded cfg t uid st)" for b
    using get_bond_info_unlocked[of b cfg t0 uid st] loaded_fresh_indep(3)[of b cfg t0 uid st t]
    by (simp add: profile_after_def)
  from stored in_memory record_affection_event_disabled(1)[OF assms] keeps within keys flags
  show ?thesis by blast
qed


theorem bonds_untouched_when_disabled_witness:
  "\<not> ENABLE_BOND_SYSTEM bonds_off
   \<and> bonds (loaded bonds_off 0 ''u''
        (run_op bonds_off ''u'' (RecordAffectionEvent clock0 5 ''positive'' ''thanks'' None) None))
       = bonds (loaded bonds_off 0 ''u'' None)
   \<and> unlocked_bonds (fst (record_affection_event bonds_off clock0 ''u'' 5 ''positive'' ''thanks'' None None)) = []
   \<and> (\<exists>r. fst (get_bond_info bonds_off 0 ''u'' None) = Inr r)
   \<and> set (dict_keys (bonds (affection (profile_after bonds_off ''u'' (GetBondInfo 0) None))))
       = set (map fst BOND_DEFINITIONS) \<union> set (dict_keys (bonds (loaded bonds_off 0 ''u'' None)))"
proof -
  have h: "\<not> ENABLE_BOND_SYSTEM bonds_off"
    by (simp add: bonds_off_def default_config_def)
  have "DEFAULT_AFFECTION bonds_off = 0"
    by (simp add: bonds_off_def default_config_def)
  from new_user_report [OF this, of 0 "''u''"]
  have r: "\<exists>r. fst (get_bond_info bonds_off 0 ''u'' None) = Inr r"
    by blast
  show ?thesis
    using h r bonds_untouched_when_disabled [OF h, of 0 "''u''"
        "RecordAffectionEvent clock0 5 ''positive'' ''thanks'' None" None
        clock0 5 "''positive''" "''thanks''" None 0]
    by blast
qed

text \<open>The claim as stated has every operation skip the creation of bond statuses when the
  bond system is disabled; \<^verbatim>\<open>get_bond_info\<close> on a new user creates all six in the profile
  it holds.\<close>

theorem get_bond_info_creates_statuses_when_disabled:
  "\<not> ENABLE_BOND_SYSTEM bonds_off
   \<and> bonds (loaded bonds_off 0 ''u'' None) = []
   \<and> dict_keys (bonds (affection (profile_after bonds_off ''u'' (GetBondInfo 0) None)))
       = [''first_meet'', ''shared_laugh'', ''deep_conversation'', ''trusted_confidant'',
          ''storm_together'', ''heart_to_heart'']"
  by (simp add: bonds_off_def default_config_def loaded_def profile_after_def get_bond_info_def
      get_social_data_def SocialData_create_def UserAffection_create_def Let_def
      BOND_DEFINITIONS_def bond_info_step_eq progress_of_def capped_ratio_0 crisis_count_def
      with_status_def dict_keys_def dict_set_def)

subsection \<open>The memory store\<close>

lemma merge_existing_None:
  "merge_existing c imp ms = None \<longleftrightarrow> (\<forall>x \<in> set ms. content (snd x) \<noteq> c)"
  by (induction c imp ms rule: merge_existing.induct) (auto split: option.splits)

lemma raised_fields [simp]:
  "content (raised imp mem) = content mem"
  "memory_id (raised imp mem) = memory_id mem"
  "created_at (raised imp mem) = created_at mem"
  "expires_at (raised imp mem) = expires_at mem"
  "memory_type (raised imp mem) = memory_type mem"
  by (simp_all add: raised_def)

lemma raised_importance:
  "importance (raised imp mem) = max imp (importance mem)"
  by (simp add: raised_def)

lemma merge_existing_first_match:
  "first_match c ms pre k mem post \<Longrightarrow>
   merge_existing c imp ms = Some (pre @ (k, raised imp mem) # post, memory_id mem)"
proof (induction pre arbitrary: ms)
  case Nil
  then show ?case by (simp add: first_match_def raised_def)
next
  case (Cons p pre)
  obtain k0 m0 where p: "p = (k0, m0)" by (cases p)
  from Cons.prems have ms: "ms = (k0, m0) # pre @ (k, mem) # post" and no: "content m0 \<noteq> c"
    and rest: "first_match c (pre @ (k, mem) # post) pre k mem post"
    by (simp_all add: first_match_def p)
  from Cons.IH[OF rest] no show ?case
    by (simp add: ms p)
qed

lemma exists_first_match:
  assumes "\<exists>x \<in> set ms. content (snd x) = c"
  shows "\<exists>pre k mem post. first_match c ms pre k mem post"
proof -
  from split_list_first_prop[OF assms]
  obtain pre x post where "ms = pre @ x # post" "content (snd x) = c"
    "\<forall>y \<in> set pre. content (snd y) \<noteq> c"
    by blast
  then have "first_match c ms pre (fst x) (snd x) post"
    by (simp add: first_match_def)
  then show ?thesis by blast
qed

lemma first_match_raised:
  "first_match c (pre @ (k, mem) # post) pre k mem post \<Longrightarrow>
   first_match c (pre @ (k, raised imp mem) # post) pre k (raised imp mem) post"
  by (simp add: first_match_def)

lemma update_decomp:
  "\<exists>pre post. AList.update k v al = pre @ (k, v) # post \<and> set pre \<subseteq> set al \<and> set post \<subseteq> set al"
proof (induction al)
  case Nil
  show ?case by simp
next
  case (Cons p al)
  show ?case
  proof (cases "fst p = k")
    case True
    then have "AList.update k v (p # al) = [] @ (k, v) # al" by simp
    then show ?thesis by (metis empty_set empty_subsetI set_subset_Cons)
  next
    case False
    from Cons.IH obtain pre post where
      "AList.update k v al = pre @ (k, v) # post" "set pre \<subseteq> set al" "set post \<subseteq> set al"
      by blast
    with False have "AList.update k v (p # al) = (p # pre) @ (k, v) # post
        \<and> set (p # pre) \<subseteq> set (p # al) \<and> set post \<subseteq> set (p # al)"
      by auto
    then show ?thesis by blast
  qed
qed

text \<open>What one call of \<^verbatim>\<open>record_user_memory\<close> does, by the two branches of its scan.\<close>

lemma record_user_memory_merged:
  assumes "first_match c (memories (get_social_data cfg (env_profile env) uid st)) pre k mem post"
  shows "record_user_memory cfg env chat_key uid mtype c imp tgs st =
     (\<lparr> result_memory_id = memory_id mem, result_message = Updated \<rparr>,
      Some ((get_social_data cfg (env_profile env) uid st)
              \<lparr> memories := pre @ (k, raised imp mem) # post \<rparr>))"
  using merge_existing_first_match[OF assms, of imp]
  by (simp add: record_user_memory_def Let_def save_social_data_def)

lemma record_user_memory_created:
  assumes "\<forall>x \<in> set (memories (get_social_data cfg (env_profile env) uid st)). content (snd x) \<noteq> c"
  shows "record_user_memory cfg env chat_key uid mtype c imp tgs st =
     (\<lparr> result_memory_id = gen_id env, result_message = Recorded \<rparr>,
      Some ((get_social_data cfg (env_profile env) uid st)
              \<lparr> memories := dict_set (gen_id env)
                   (UserMemory_create (env_created env) (gen_id env) mtype c chat_key imp
                      (RETENTION_DAYS cfg) tgs)
                   (memories (get_social_data cfg (env_profile env) uid st)) \<rparr>))"
  using assms merge_existing_None[of c imp "memories (get_social_data cfg (env_profile env) uid st)"]
  by (simp add: record_user_memory_def Let_def save_social_data_def)

text \<open>After any call the store holds a profile in which the first record with the content
  of the call carries the id that the call returned.\<close>

lemma record_user_memory_leaves_match:
  "\<exists>d pre k mem post.
     snd (record_user_memory cfg env chat_key uid mtype c imp tgs st) = Some d
     \<and> first_match c (memories d) pre k mem post
     \<and> memory_id mem = result_memory_id (fst (record_user_memory cfg env chat_key uid mtype c imp tgs st))
     \<and> ((\<forall>x \<in> set (memories (get_social_data cfg (env_profile env) uid st)). content (snd x) \<noteq> c)
          \<longrightarrow> (\<forall>x \<in> set post. content (snd x) \<noteq> c))"
proof (cases "\<exists>x \<in> set (memories (get_social_data cfg (env_profile env) uid st)). content (snd x) = c")
  case True
  let ?sd = "get_social_data cfg (env_profile env) uid st"
  from exists_first_match[OF True] obtain pre k mem post where
    fm: "first_match c (memories ?sd) pre k mem post"
    by blast
  then have fm': "first_match c (pre @ (k, raised imp mem) # post) pre k (raised imp mem) post"
    by (simp add: first_match_def)
  have "snd (record_user_memory cfg env chat_key uid mtype c imp tgs st)
          = Some (?sd\<lparr> memories := pre @ (k, raised imp mem) # post \<rparr>)
     \<and> first_match c (memories (?sd\<lparr> memories := pre @ (k, raised imp mem) # post \<rparr>))
          pre k (raised imp mem) post
     \<and> memory_id (raised imp mem)
          = result_memory_id (fst (record_user_memory cfg env chat_key uid mtype c imp tgs st))"
    unfolding record_user_memory_merged[OF fm] using fm' by simp
  with True show ?thesis by blast
next
  case False
  let ?sd = "get_social_data cfg (env_profile env) uid st"
  from False have none: "\<forall>x \<in> set (memories ?sd). content (snd x) \<noteq> c"
    by blast
  define new where "new = UserMemory_create (env_created env) (gen_id env) mtype c chat_key imp
                      (RETENTION_DAYS cfg) tgs"
  from update_decomp[of "gen_id env" new "memories ?sd"]
  obtain pre post where d: "dict_set (gen_id env) new (memories ?sd) = pre @ (gen_id env, new) # post"
      "set pre \<subseteq> set (memories ?sd)" "set post \<subseteq> set (memories ?sd)"
    by (auto simp add: dict_set_def)
  have new: "content new = c" "memory_id new = gen_id env"
    by (simp_all add: new_def UserMemory_create_def)
  with d none have fm': "first_match c (pre @ (gen_id env, new) # post) pre (gen_id env) new post"
    by (auto simp add: first_match_def)
  have "snd (record_user_memory cfg env chat_key uid mtype c imp tgs st)
          = Some (?sd\<lparr> memories := pre @ (gen_id env, new) # post \<rparr>)
     \<and> first_match c (memories (?sd\<lparr> memories := pre @ (gen_id env, new) # post \<rparr>))
          pre (gen_id env) new post
     \<and> memory_id new
          = result_memory_id (fst (record_user_memory cfg env chat_key uid mtype c imp tgs st))"
    unfolding record_user_memory_created[OF none] new_def[symmetric] d(1)
    using fm' new by simp
  moreover from d(3) none have "\<forall>x \<in> set post. content (snd x) \<noteq> c"
    by blast
  ultimately show ?thesis by blast
qed


lemma count_content:
  assumes "first_match c ms pre k mem post"
  shows "length (filter (\<lambda>m. content m = c) (dict_values ms))
           = Suc (length (filter (\<lambda>m. content m = c) (dict_values post)))"
proof -
  from assms have "filter (\<lambda>m. content m = c) (map snd pre) = []"
    by (auto simp add: first_match_def filter_empty_conv)
  with assms show ?thesis
    by (simp add: first_match_def dict_values_def)
qed

text \<open>C4. Two calls of \<^verbatim>\<open>record_user_memory\<close> for the same user with the same content, with
  any other arguments: the second call finds the record whose id the first call returned,
  returns that id with the "updated" message, stores no new record (same keys, same
  number of records with this content; exactly one if there was none before the first
  call), and changes at most that record's importance: to the argument when the argument is
  strictly greater than the stored importance, not at all otherwise.\<close>

theorem record_user_memory_twice_merges:
  "\<exists>d1 d2 pre k mem post.
      snd (record_user_memory cfg env chat_key uid mtype c imp tgs st) = Some d1
    \<and> snd (record_user_memory cfg2 env2 chat_key2 uid mtype2 c imp2 tgs2
             (snd (record_user_memory cfg env chat_key uid mtype c imp tgs st))) = Some d2
    \<and> first_match c (memories d1) pre k mem post
    \<and> memory_id mem = result_memory_id (fst (record_user_memory cfg env chat_key uid mtype c imp tgs st))
    \<and> result_memory_id (fst (record_user_memory cfg2 env2 chat_key2 uid mtype2 c imp2 tgs2
             (snd (record_user_memory cfg env chat_key uid mtype c imp tgs st))))
        = result_memory_id (fst (record_user_memory cfg env chat_key uid mtype c imp tgs st))
    \<and> result_message (fst (record_user_memory cfg2 env2 chat_key2 uid mtype2 c imp2 tgs2
             (snd (record_user_memory cfg env chat_key uid mtype c imp tgs st)))) = Updated
    \<and> affection d2 = affection d1
    \<and> memories d2 = pre @ (k, raised imp2 mem) # post
    \<and> (importance mem < imp2 \<longrightarrow> raised imp2 mem = mem\<lparr> importance := imp2 \<rparr>)
    \<and> (imp2 \<le> importance mem \<longrightarrow> d2 = d1)
    \<and> dict_keys (memories d2) = dict_keys (memories d1)
    \<and> length (filter (\<lambda>m. content m = c) (dict_values (memories d2)))
        = length (filter (\<lambda>m. content m = c) (dict_values (memories d1)))
    \<and> ((\<forall>x \<in> set (memories (get_social_data cfg (env_profile env) uid st)). content (snd x) \<noteq> c)
          \<longrightarrow> length (filter (\<lambda>m. content m = c) (dict_values (memories d2))) = 1)"
proof -
  let ?first = "record_user_memory cfg env chat_key uid mtype c imp tgs st"
  from record_user_memory_leaves_match[of cfg env chat_key uid mtype c imp tgs st]
  obtain d1 pre k mem post where
    d1: "snd ?first = Some d1"
    and fm: "first_match c (memories d1) pre k mem post"
    and mid: "memory_id mem = result_memory_id (fst ?first)"
    and fresh: "(\<forall>x \<in> set (memories (get_social_data cfg (env_profile env) uid st)). content (snd x) \<noteq> c)
          \<longrightarrow> (\<forall>x \<in> set post. content (snd x) \<noteq> c)"
    by blast
  define d2 where "d2 = d1\<lparr> memories := pre @ (k, raised imp2 mem) # post \<rparr>"
  have load: "get_social_data cfg2 (env_profile env2) uid (Some d1) = d1"
    by (simp add: get_social_data_def)
  have second: "record_user_memory cfg2 env2 chat_key2 uid mtype2 c imp2 tgs2 (Some d1)
      = (\<lparr> result_memory_id = memory_id mem, result_message = Updated \<rparr>, Some d2)"
    using record_user_memory_merged[of c cfg2 env2 uid "Some d1" pre k mem post chat_key2 mtype2 imp2 tgs2]
      fm unfolding load d2_def by simp
  have ms1: "memories d1 = pre @ (k, mem) # post"
    using fm by (simp add: first_match_def)
  have fm2: "first_match c (memories d2) pre k (raised imp2 mem) post"
    using fm by (simp add: d2_def first_match_def)
  have keys: "dict_keys (memories d2) = dict_keys (memories d1)"
    by (simp add: d2_def ms1 dict_keys_def)
  have count: "length (filter (\<lambda>m. content m = c) (dict_values (memories d2)))
        = length (filter (\<lambda>m. content m = c) (dict_values (memories d1)))"
    unfolding count_content[OF fm] count_content[OF fm2] by (rule refl)
  have one: "length (filter (\<lambda>m. content m = c) (dict_values (memories d2))) = 1"
    if "\<forall>x \<in> set (memories (get_social_data cfg (env_profile env) uid st)). content (snd x) \<noteq> c"
  proof -
    from that fresh have "filter (\<lambda>m. content m = c) (dict_values post) = []"
      by (auto simp add: filter_empty_conv dict_values_def)
    then show ?thesis
      unfolding count_content[OF fm2] by simp
  qed
  have same: "d2 = d1" if "imp2 \<le> importance mem"
    using that by (simp add: d2_def raised_def ms1[symmetric])
  have up: "raised imp2 mem = mem\<lparr> importance := imp2 \<rparr>" if "importance mem < imp2"
    using that by (simp add: raised_def)
  have aff: "affection d2 = affection d1" and ms2: "memories d2 = pre @ (k, raised imp2 mem) # post"
    by (simp_all add: d2_def)
  have r2: "snd (record_user_memory cfg2 env2 chat_key2 uid mtype2 c imp2 tgs2 (snd ?first)) = Some d2"
    "result_memory_id (fst (record_user_memory cfg2 env2 chat_key2 uid mtype2 c imp2 tgs2 (snd ?first)))
       = result_memory_id (fst ?first)"
    "result_message (fst (record_user_memory cfg2 env2 chat_key2 uid mtype2 c imp2 tgs2 (snd ?first))) = Updated"
    unfolding d1 second using mid by simp_all
  from d1 r2 fm mid aff ms2 up same keys count one show ?thesis
    by blast
qed


theorem record_user_memory_twice_merges_witness:
  "memories (get_social_data default_config (env_profile mem_env0) ''u'' None) = []
   \<and> (\<exists>d2. run_ops default_config ''u'' [tea3, tea8] None = Some d2
         \<and> length (filter (\<lambda>m. content m = ''likes tea'') (dict_values (memories d2))) = 1)"
proof -
  have e: "memories (get_social_data default_config (env_profile mem_env0) ''u'' None) = []"
    by (simp add: get_social_data_def SocialData_create_def)
  then have h: "\<forall>x \<in> set (memories (get_social_data default_config (env_profile mem_env0) ''u'' None)).
       content (snd x) \<noteq> ''likes tea''"
    by simp
  have r: "run_ops default_config ''u'' [tea3, tea8] None
      = snd (record_user_memory default_config mem_env1 ''chat'' ''u'' ''preference'' ''likes tea'' 8 None
          (snd (record_user_memory default_config mem_env0 ''chat'' ''u'' ''preference'' ''likes tea'' 3 None
             None)))"
    by (simp add: run_ops_def tea3_def tea8_def)
  show ?thesis
    using e h record_user_memory_twice_merges [of default_config mem_env0 "''chat''" "''u''"
        "''preference''" "''likes tea''" 3 None None default_config mem_env1 "''chat''"
        "''preference''" 8 None]
    unfolding r by blast
qed

text \<open>C2. The claim has every stored importance in [0, 10] after every call. The branch
  that finds the content already stored assigns the argument as it is: after storing
  "likes tea" with importance 3, a second call with importance 15 leaves the one record with
  importance 15.\<close>

theorem merged_importance_is_not_clamped:
  "map (\<lambda>m. (content m, importance m))
     (dict_values (memories (get_social_data default_config 0 ''u''
        (run_ops default_config ''u'' [tea3, tea15] None))))
     = [(''likes tea'', 15)]"
  by code_simp


lemma py_slice_to_subset: "set (py_slice_to n xs) \<subseteq> set xs"
  by (simp add: py_slice_to_def set_take_subset)

lemma set_rank [simp]: "set (rank ms) = set ms"
  by (simp add: rank_def)

lemma query_select_sound:
  assumes "m \<in> set (query_select now tys min_importance limit ms)"
  shows "m \<in> set (dict_values ms) \<and> \<not> of_int (expires_at m) < now"
proof -
  from assms
  have "m \<in> set (rank (filter (\<lambda>mem. \<not> of_int (expires_at mem) < now
                            \<and> \<not> type_rejected tys mem
                            \<and> \<not> importance mem < min_importance) (dict_values ms)))"
    unfolding query_select_def by (rule subsetD[OF py_slice_to_subset])
  then show ?thesis by simp
qed

lemma search_loop_sound:
  assumes "m \<in> set (search_loop lower now keyword tys limit ms results)"
  shows "m \<in> set results \<or> (m \<in> set ms \<and> \<not> of_int (expires_at m) < now)"
  using assms
proof (induction lower now keyword tys limit ms results rule: search_loop.induct)
  case (1 lower now keyword tys limit results)
  then show ?case by simp
next
  case (2 lower now keyword tys limit mem rest results)
  show ?case
  proof (cases "of_int (expires_at mem) < now")
    case True
    with "2.prems" "2.IH"(1) show ?thesis by auto
  next
    case live: False
    show ?thesis
    proof (cases "type_rejected tys mem")
      case True
      with live "2.prems" "2.IH"(2) show ?thesis by auto
    next
      case False
      define results' where
        "results' = (if keyword_in lower keyword (content mem) then results @ [mem] else results)"
      have sub: "set results' \<subseteq> insert mem (set results)"
        by (auto simp add: results'_def)
      show ?thesis
      proof (cases "limit \<le> int (length results')")
        case True
        with live False "2.prems" have "m \<in> set results'"
          by (simp add: results'_def Let_def)
        with sub live show ?thesis by auto
      next
        case more: False
        with live False "2.prems" have "m \<in> set (search_loop lower now keyword tys limit rest results')"
          by (simp add: results'_def Let_def)
        from "2.IH"(3)[OF live False results'_def more this] sub live show ?thesis
          by auto
      qed
    qed
  qed
qed

lemma count_type_expired: "of_int (expires_at m) < now \<Longrightarrow> count_type now bt m = bt"
  by (simp add: count_type_def)

text \<open>The per-type counts of \<^verbatim>\<open>get_user_summary\<close> are those of the records that are not
  expired.\<close>

lemma by_type_counts_live_records:
  "foldl (count_type now) bt ms
     = foldl (count_type now) bt (filter (\<lambda>m. \<not> of_int (expires_at m) < now) ms)"
  by (induction ms arbitrary: bt) (simp_all add: count_type_expired)

lemma valid_memories_sound:
  assumes "m \<in> set (valid_memories cfg clock ms)"
  shows "\<exists>i. \<not> is_expired (clock i) m"
proof -
  from assms
  have "m \<in> set (rank (map snd
          (filter (\<lambda>(i, m). \<not> is_expired (clock i) m \<and> MIN_IMPORTANCE_SCORE cfg \<le> importance m)
             (enumerate 0 (dict_values ms)))))"
    unfolding valid_memories_def by (rule subsetD[OF py_slice_to_subset])
  then show ?thesis by auto
qed

text \<open>A record that expired before the call started is in none of: the rows of
  \<^verbatim>\<open>query_user_memory\<close>, the rows of \<^verbatim>\<open>search_user_memory\<close>, the memory section of
  the injected prompt (whose clock readings are not earlier than the start of the call), the
  memory section of the user profile; and the per-type counts ignore it.\<close>

lemma expired_records_excluded:
  "m \<in> set (query_select now tys min_importance limit ms) \<Longrightarrow> \<not> of_int (expires_at m) < now"
  "m \<in> set (search_loop lower now keyword tys limit (dict_values ms) []) \<Longrightarrow> \<not> of_int (expires_at m) < now"
  "m \<in> set (valid_memories cfg clock ms) \<Longrightarrow> \<forall>i. now \<le> clock i \<Longrightarrow> \<not> of_int (expires_at m) < now"
  "m \<in> set (sec_memories (fst (get_user_profile cfg t now uid st))) \<Longrightarrow> \<not> of_int (expires_at m) < now"
proof -
  show "m \<in> set (query_select now tys min_importance limit ms) \<Longrightarrow> \<not> of_int (expires_at m) < now"
    using query_select_sound by blast
  show "m \<in> set (search_loop lower now keyword tys limit (dict_values ms) []) \<Longrightarrow> \<not> of_int (expires_at m) < now"
    using search_loop_sound[of m lower now keyword tys limit "dict_values ms" "[]"] by simp
  show "\<not> of_int (expires_at m) < now"
    if "m \<in> set (valid_memories cfg clock ms)" and later: "\<forall>i. now \<le> clock i"
  proof -
    from valid_memories_sound[OF that(1)] obtain i where "\<not> of_int (expires_at m) < clock i"
      by (auto simp add: is_expired_def)
    with later[rule_format, of i] show ?thesis by simp
  qed
  show "\<not> of_int (expires_at m) < now"
    if "m \<in> set (sec_memories (fst (get_user_profile cfg t now uid st)))"
  proof -
    from that have "m \<in> set (py_slice_to 10 (rank (filter (\<lambda>m. now \<le> of_int (expires_at m))
                          (dict_values (memories (get_social_data cfg t uid st))))))"
      by (simp add: get_user_profile_def Let_def)
    then have "m \<in> set (rank (filter (\<lambda>m. now \<le> of_int (expires_at m))
                          (dict_values (memories (get_social_data cfg t uid st)))))"
      by (rule subsetD[OF py_slice_to_subset])
    then show ?thesis by simp
  qed
qed

text \<open>C3. The claim has an expired record excluded from the per-type counts and from the
  total count of \<^verbatim>\<open>get_user_summary\<close>. One record stored at time 0 with 30 days of retention
  expires at 2592000; at time 3000000 the query returns nothing and every per-type count is
  0, but \<^verbatim>\<open>total_memories\<close> is 1: it is the size of the whole dictionary.\<close>

theorem summary_total_counts_expired_records:
  "map expires_at (dict_values (memories (get_social_data default_config 0 ''u''
      (run_ops default_config ''u'' [tea3] None)))) = [2592000]
   \<and> fst (query_user_memory default_config 0 3000000 ''u'' None 0 20
           (run_ops default_config ''u'' [tea3] None)) = []
   \<and> by_type (fst (get_user_summary default_config 0 3000000 ''u''
           (run_ops default_config ''u'' [tea3] None)))
       = [(''preference'', 0), (''personal_info'', 0), (''commitment'', 0), (''interest'', 0),
          (''habit'', 0), (''custom'', 0)]
   \<and> total_memories (fst (get_user_summary default_config 0 3000000 ''u''
           (run_ops default_config ''u'' [tea3] None))) = 1"
  by code_simp


text \<open>The creation branch clamps: a call that finds no record with the content stores one
  whose importance is in [0, 10], and a call whose argument is at most 10 keeps every stored
  importance in [0, 10] if they all were.\<close>

lemma created_importance_clamped:
  "0 \<le> importance (UserMemory_create now mid mtype c chat_key imp days tgs)
   \<and> importance (UserMemory_create now mid mtype c chat_key imp days tgs) \<le> 10"
  by (simp add: UserMemory_create_def)

lemma set_update_subset: "set (AList.update k v al) \<subseteq> insert (k, v) (set al)"
  by (induction al) auto

lemma record_user_memory_keeps_importance_range:
  assumes inv: "\<forall>x \<in> set (memories (get_social_data cfg (env_profile env) uid st)).
                 0 \<le> importance (snd x) \<and> importance (snd x) \<le> 10"
    and arg: "imp \<le> 10"
    and saved: "snd (record_user_memory cfg env chat_key uid mtype c imp tgs st) = Some d"
  shows "\<forall>x \<in> set (memories d). 0 \<le> importance (snd x) \<and> importance (snd x) \<le> 10"
proof (cases "\<exists>x \<in> set (memories (get_social_data cfg (env_profile env) uid st)). content (snd x) = c")
  case True
  from exists_first_match[OF True] obtain pre k mem post where
    fm: "first_match c (memories (get_social_data cfg (env_profile env) uid st)) pre k mem post"
    by blast
  from saved have d: "memories d = pre @ (k, raised imp mem) # post"
    unfolding record_user_memory_merged[OF fm] by auto
  from fm have ms: "memories (get_social_data cfg (env_profile env) uid st) = pre @ (k, mem) # post"
    by (simp add: first_match_def)
  from inv have "0 \<le> importance mem \<and> importance mem \<le> 10"
    unfolding ms by simp
  with arg have "0 \<le> importance (raised imp mem) \<and> importance (raised imp mem) \<le> 10"
    by (auto simp add: raised_def)
  with inv show ?thesis
    unfolding d ms by auto
next
  case False
  then have none: "\<forall>x \<in> set (memories (get_social_data cfg (env_profile env) uid st)). content (snd x) \<noteq> c"
    by blast
  from saved have d: "memories d = dict_set (gen_id env)
                   (UserMemory_create (env_created env) (gen_id env) mtype c chat_key imp
                      (RETENTION_DAYS cfg) tgs)
                   (memories (get_social_data cfg (env_profile env) uid st))"
    unfolding record_user_memory_created[OF none] by auto
  show ?thesis
    unfolding d dict_set_def
    using inv created_importance_clamped set_update_subset
    by (metis (no_types, lifting) insertE snd_conv subsetD)
qed

text \<open>C10. The scan of \<^verbatim>\<open>record_user_memory\<close> compares contents only. When the profile
  holds a record with the content of the call, expired or not, the call returns the id of
  the first such record with the "updated" message, stores no new record, and leaves the
  keys, contents, creation and expiry times of all records as they were. If every record
  with that content had expired by \<open>now\<close>, then after the call neither
  \<^verbatim>\<open>query_user_memory\<close> nor \<^verbatim>\<open>search_user_memory\<close> at \<open>now\<close> returns a row with that
  content.\<close>

theorem merge_ignores_expiry:
  assumes "first_match c (memories (get_social_data cfg (env_profile env) uid st)) pre k mem post"
  shows "\<exists>d. record_user_memory cfg env chat_key uid mtype c imp tgs st
                = (\<lparr> result_memory_id = memory_id mem, result_message = Updated \<rparr>, Some d)
     \<and> dict_keys (memories d) = dict_keys (memories (get_social_data cfg (env_profile env) uid st))
     \<and> map content (dict_values (memories d))
         = map content (dict_values (memories (get_social_data cfg (env_profile env) uid st)))
     \<and> map created_at (dict_values (memories d))
         = map created_at (dict_values (memories (get_social_data cfg (env_profile env) uid st)))
     \<and> map expires_at (dict_values (memories d))
         = map expires_at (dict_values (memories (get_social_data cfg (env_profile env) uid st)))
     \<and> ((\<forall>x \<in> set (memories (get_social_data cfg (env_profile env) uid st)).
            content (snd x) = c \<longrightarrow> of_int (expires_at (snd x)) < now)
         \<longrightarrow> (\<forall>row \<in> set (fst (query_user_memory cfg2 t2 now uid tys min_importance limit (Some d))).
                row_content row \<noteq> c)
           \<and> (\<forall>row \<in> set (fst (search_user_memory lower cfg2 t2 now uid keyword tys limit (Some d))).
                fst (snd (snd row)) \<noteq> c))"
proof -
  let ?sd = "get_social_data cfg (env_profile env) uid st"
  define d where "d = ?sd\<lparr> memories := pre @ (k, raised imp mem) # post \<rparr>"
  have ms: "memories ?sd = pre @ (k, mem) # post"
    using assms by (simp add: first_match_def)
  have md: "memories d = pre @ (k, raised imp mem) # post"
    by (simp add: d_def)
  have call: "record_user_memory cfg env chat_key uid mtype c imp tgs st
                = (\<lparr> result_memory_id = memory_id mem, result_message = Updated \<rparr>, Some d)"
    unfolding d_def by (rule record_user_memory_merged[OF assms])
  have frame: "dict_keys (memories d) = dict_keys (memories ?sd)"
    "map content (dict_values (memories d)) = map content (dict_values (memories ?sd))"
    "map created_at (dict_values (memories d)) = map created_at (dict_values (memories ?sd))"
    "map expires_at (dict_values (memories d)) = map expires_at (dict_values (memories ?sd))"
    unfolding ms md by (simp_all add: dict_keys_def dict_values_def)
  have absent: "(\<forall>row \<in> set (fst (query_user_memory cfg2 t2 now uid tys min_importance limit (Some d))).
                row_content row \<noteq> c)
           \<and> (\<forall>row \<in> set (fst (search_user_memory lower cfg2 t2 now uid keyword tys limit (Some d))).
                fst (snd (snd row)) \<noteq> c)"
    if expired: "\<forall>x \<in> set (memories ?sd). content (snd x) = c \<longrightarrow> of_int (expires_at (snd x)) < now"
  proof -
    have gone: "of_int (expires_at m) < now" if "m \<in> set (dict_values (memories d))" "content m = c" for m
      using that expired unfolding ms md dict_values_def by auto
    have q: "content m \<noteq> c" if "m \<in> set (query_select now tys min_importance limit (memories d))" for m
      using query_select_sound[OF that] gone by blast
    have s: "content m \<noteq> c"
      if "m \<in> set (search_loop lower now keyword tys limit (dict_values (memories d)) [])" for m
      using search_loop_sound[OF that] gone by auto
    from q s show ?thesis
      by (auto simp add: query_user_memory_def search_user_memory_def get_social_data_def
          query_row_def search_row_def)
  qed
  from call frame absent show ?thesis
    by blast
qed

theorem merge_ignores_expiry_witness:
  "map (\<lambda>x. (fst x, content (snd x), expires_at (snd x)))
     (memories (get_social_data default_config (env_profile mem_env1) ''u''
        (run_ops default_config ''u'' [tea3] None)))
     = [(''mem_0'', ''likes tea'', 2592000)]
   \<and> fst (record_user_memory default_config mem_env1 ''chat'' ''u'' ''preference'' ''likes tea'' 8 None
           (run_ops default_config ''u'' [tea3] None))
       = \<lparr> result_memory_id = ''mem_0'', result_message = Updated \<rparr>
   \<and> ''likes tea'' \<notin> row_content ` set (fst (query_user_memory default_config 0 3000000 ''u'' None 0 20
           (snd (record_user_memory default_config mem_env1 ''chat'' ''u'' ''preference'' ''likes tea'' 8
              None (run_ops default_config ''u'' [tea3] None)))))"
proof -
  let ?st = "run_ops default_config ''u'' [tea3] None"
  let ?m = "UserMemory_create 0 ''mem_0'' ''preference'' ''likes tea'' ''chat'' 3 30 None"
  have ms: "memories (get_social_data default_config (env_profile mem_env1) ''u'' ?st) = [(''mem_0'', ?m)]"
    by code_simp
  have shape: "map (\<lambda>x. (fst x, content (snd x), expires_at (snd x)))
     (memories (get_social_data default_config (env_profile mem_env1) ''u'' ?st))
     = [(''mem_0'', ''likes tea'', 2592000)]"
    unfolding ms by (simp add: UserMemory_create_def)
  have fm: "first_match ''likes tea''
     (memories (get_social_data default_config (env_profile mem_env1) ''u'' ?st)) [] ''mem_0'' ?m []"
    unfolding ms by (simp add: first_match_def UserMemory_create_def)
  have ex: "\<forall>x \<in> set (memories (get_social_data default_config (env_profile mem_env1) ''u'' ?st)).
         content (snd x) = ''likes tea'' \<longrightarrow> of_int (expires_at (snd x)) < (3000000::rat)"
    unfolding ms by (simp add: UserMemory_create_def)
  have mid: "memory_id ?m = ''mem_0''"
    by (simp add: UserMemory_create_def)
  from merge_ignores_expiry [OF fm, of "''chat''" "''preference''" 8 None 3000000
      default_config 0 None 0 20]
  obtain d where call: "record_user_memory default_config mem_env1 ''chat'' ''u'' ''preference''
           ''likes tea'' 8 None ?st
       = (\<lparr> result_memory_id = memory_id ?m, result_message = Updated \<rparr>, Some d)"
    and absent: "(\<forall>x \<in> set (memories (get_social_data default_config (env_profile mem_env1) ''u'' ?st)).
            content (snd x) = ''likes tea'' \<longrightarrow> of_int (expires_at (snd x)) < (3000000::rat))
         \<longrightarrow> (\<forall>row \<in> set (fst (query_user_memory default_config 0 3000000 ''u'' None 0 20 (Some d))).
                row_content row \<noteq> ''likes tea'')"
    by blast
  from call have r: "fst (record_user_memory default_config mem_env1 ''chat'' ''u'' ''preference''
           ''likes tea'' 8 None ?st) = \<lparr> result_memory_id = ''mem_0'', result_message = Updated \<rparr>"
    by (simp add: mid)
  from call have s: "snd (record_user_memory default_config mem_env1 ''chat'' ''u'' ''preference''
           ''likes tea'' 8 None ?st) = Some d"
    by simp
  define rows where "rows = fst (query_user_memory default_config 0 3000000 ''u'' None 0 20 (Some d))"
  from absent[THEN mp, OF ex] have "\<forall>row \<in> set rows. row_content row \<noteq> ''likes tea''"
    unfolding rows_def .
  then have "''likes tea'' \<notin> row_content ` set rows"
    by auto
  then have "''likes tea'' \<notin> row_content ` set (fst (query_user_memory default_config 0
           3000000 ''u'' None 0 20 (Some d)))"
    unfolding rows_def .
  with shape r show ?thesis
    unfolding s by blast
qed

end
